theory Spec2Isabelle
  imports Main "HOL-Library.Word" "HOL-Library.AList"
begin

section \<open>Architecture descriptors of archinfo (arch.py)\<close>

text \<open>
  A shallow embedding of \<^verbatim>\<open>arch.py\<close>: the class \<^verbatim>\<open>Arch\<close> (constructor, \<^verbatim>\<open>copy\<close>,
  \<^verbatim>\<open>__eq__\<close>, \<^verbatim>\<open>struct_fmt\<close>, the tag translations), the registry functions
  \<^verbatim>\<open>register_arch\<close> and \<^verbatim>\<open>arch_from_id\<close>, and the helper \<^verbatim>\<open>reverse_ends\<close>.
  The module is Python 2 code (it uses \<^verbatim>\<open>long\<close> and \<^verbatim>\<open>re._pattern_type\<close>), and it is
  modelled as such. Python exceptions are values of the type \<open>error\<close>; a function that
  can raise returns \<open>error + 'a\<close> with \<open>Inl\<close> for the exception. A function that
  allocates or mutates shared objects takes the store and returns the new one.
\<close>

subsection \<open>Exceptions\<close>

datatype error =
    ArchError
  | StructError
  | TypeError
  | ValueError
  | AttributeError
  | RuntimeError

subsection \<open>Byte strings and \<^verbatim>\<open>reverse_ends\<close>\<close>

text \<open>
  A Python 2 \<^verbatim>\<open>str\<close> used as a byte string is a list of 8-bit words.
  \<^verbatim>\<open>struct.unpack('<' + 'I'*n, s)\<close> raises \<^verbatim>\<open>struct.error\<close> unless \<^verbatim>\<open>len(s) == 4*n\<close>
  and otherwise reads each group of four bytes as an unsigned integer, least significant
  byte first. \<^verbatim>\<open>struct.pack('>' + 'I'*n, *xs)\<close> raises unless it gets \<open>n\<close> integers
  in the range of 32 bits and otherwise writes each one most significant byte first.
\<close>

type_synonym byte = "8 word"

fun unpack_LE_I :: "byte list \<Rightarrow> nat list" where
  "unpack_LE_I (a # b # c # d # rest) =
     (unat a + 256 * unat b + 65536 * unat c + 16777216 * unat d) # unpack_LE_I rest"
| "unpack_LE_I _ = []"

definition pack_BE_I :: "nat \<Rightarrow> byte list" where
  "pack_BE_I x =
     [of_nat (x div 16777216 mod 256), of_nat (x div 65536 mod 256),
      of_nat (x div 256 mod 256), of_nat (x mod 256)]"

definition struct_unpack_LE_I :: "nat \<Rightarrow> byte list \<Rightarrow> error + nat list" where
  "struct_unpack_LE_I n s =
     (if length s \<noteq> 4 * n then Inl StructError else Inr (unpack_LE_I s))"

definition struct_pack_BE_I :: "nat \<Rightarrow> nat list \<Rightarrow> error + byte list" where
  "struct_pack_BE_I n xs =
     (if length xs \<noteq> n \<or> (\<exists>x \<in> set xs. 4294967296 \<le> x) then Inl StructError
      else Inr (concat (map pack_BE_I xs)))"

text \<open>
  \<^verbatim>\<open>
  def reverse_ends(string):
      ise = 'I'*(len(string)//4)
      return _struct.pack('>' + ise, *_struct.unpack('<' + ise, string))
  \<close>
\<close>

definition reverse_ends :: "byte list \<Rightarrow> error + byte list" where
  "reverse_ends string =
     (let ise = length string div 4 in
      case struct_unpack_LE_I ise string of
        Inl e \<Rightarrow> Inl e
      | Inr xs \<Rightarrow> struct_pack_BE_I ise xs)"

text \<open>The reversal of a byte string in groups of four bytes, as the specification words it.\<close>

fun rev_groups4 :: "'a list \<Rightarrow> 'a list" where
  "rev_groups4 (a # b # c # d # rest) = d # c # b # a # rev_groups4 rest"
| "rev_groups4 xs = xs"

subsection \<open>Python values, dictionaries and the store\<close>

text \<open>
  The values the modelled functions inspect at run time: \<^verbatim>\<open>None\<close>, integers (\<^verbatim>\<open>int\<close>
  or \<^verbatim>\<open>long\<close>, not told apart), strings, lists, and references to dictionary objects.
  A dictionary is an association list in iteration order, with distinct keys; \<open>map_of\<close>
  is the lookup, \<open>AList.update\<close> the assignment \<^verbatim>\<open>d[k] = v\<close>. (Python 2 iterates a
  dictionary in hash order; the list is taken in whatever order the dictionary iterates.)

  Dictionary objects that are shared and mutated live in a store: a list of dictionaries,
  an address being an index into it. Allocation appends, so the new address is the length
  of the store.
\<close>

datatype pyval =
    PNone
  | PInt int
  | PStr string
  | PList "pyval list"
  | PRef nat

type_synonym pydict = "(string \<times> pyval) list"
type_synonym heap = "pydict list"

definition dict_setitem :: "heap \<Rightarrow> nat \<Rightarrow> string \<Rightarrow> pyval \<Rightarrow> heap" where
  \<comment> \<open>\<^verbatim>\<open>d[k] = v\<close> for the dictionary object at address \<open>a\<close>\<close>
  "dict_setitem h a k v = h[a := AList.update k v (h ! a)]"

definition dict_copy :: "heap \<Rightarrow> nat \<Rightarrow> nat \<times> heap" where
  \<comment> \<open>\<^verbatim>\<open>d.copy()\<close>: a new dictionary object with the same items; the values are not copied\<close>
  "dict_copy h a = (length h, h @ [h ! a])"

definition dict_getitem :: "heap \<Rightarrow> nat \<Rightarrow> string \<Rightarrow> pyval option" where
  "dict_getitem h a k = map_of (h ! a) k"

text \<open>
  A dictionary literal with nested dictionary literals, as a function of the lifting
  backend returns it: evaluating it allocates a new object for every dictionary in it.
\<close>

datatype blob =
    BAtom pyval
  | BDict "(string \<times> blob) list"

fun alloc :: "blob \<Rightarrow> heap \<Rightarrow> pyval \<times> heap"
  and alloc_items :: "(string \<times> blob) list \<Rightarrow> heap \<Rightarrow> pydict \<times> heap" where
  "alloc (BAtom v) h = (v, h)"
| "alloc (BDict kvs) h =
     (case alloc_items kvs h of (d, h') \<Rightarrow> (PRef (length h'), h' @ [d]))"
| "alloc_items [] h = ([], h)"
| "alloc_items (kv # kvs) h =
     (case alloc (snd kv) h of (v, h1) \<Rightarrow>
      case alloc_items kvs h1 of (d, h2) \<Rightarrow> ((fst kv, v) # d, h2))"

definition alloc_dict :: "(string \<times> blob) list \<Rightarrow> heap \<Rightarrow> nat \<times> heap" where
  "alloc_dict kvs h = (case alloc_items kvs h of (d, h') \<Rightarrow> (length h', h' @ [d]))"

subsection \<open>Strings\<close>


definition upper_char :: "char \<Rightarrow> char" where
  "upper_char c =
     (case map_of (zip ''abcdefghijklmnopqrstuvwxyz'' ''ABCDEFGHIJKLMNOPQRSTUVWXYZ'') c of
        None \<Rightarrow> c | Some d \<Rightarrow> d)"


definition upper :: "string \<Rightarrow> string" where
  "upper s = map upper_char s"


subsection \<open>\<^verbatim>\<open>Endness\<close>\<close>

definition Endness_LE :: string where "Endness_LE = ''Iend_LE''"
definition Endness_BE :: string where "Endness_BE = ''Iend_BE''"
definition Endness_ME :: string where "Endness_ME = ''Iend_ME''"

subsection \<open>The optional backends and the \<^verbatim>\<open>re\<close> module\<close>

text \<open>
  \<^verbatim>\<open>pyvex\<close>, \<^verbatim>\<open>capstone\<close> and \<^verbatim>\<open>unicorn\<close> are imported under \<^verbatim>\<open>try\<close>; each is \<^verbatim>\<open>None\<close>
  when the import failed. They and the regular expressions of \<^verbatim>\<open>re\<close> are not code of this
  module: what the module uses of them is a parameter.
\<close>

record pyvex_module =
  default_vex_archinfo :: "(string \<times> blob) list"
  vex_endness_from_string :: "string \<Rightarrow> pyval"

record capstone_module =
  CS_MODE_LITTLE_ENDIAN :: int
  CS_MODE_BIG_ENDIAN :: int

record unicorn_module =
  UC_MODE_LITTLE_ENDIAN :: int
  UC_MODE_BIG_ENDIAN :: int

record env =
  pyvex :: "pyvex_module option"
  capstone :: "capstone_module option"
  unicorn :: "unicorn_module option"
  re_compiles :: "string \<Rightarrow> bool"
  re_match :: "string \<Rightarrow> string \<Rightarrow> bool"

subsection \<open>The class \<^verbatim>\<open>Arch\<close> and its subclasses\<close>

text \<open>
  A subclass of \<^verbatim>\<open>Arch\<close> (a variant) declares class attributes; \<open>arch_class\<close> holds the
  ones the modelled methods read. \<open>c_init_default\<close> is the default value of the
  constructor's \<^verbatim>\<open>endness\<close> parameter, \<open>None\<close> when it has none, as in \<^verbatim>\<open>Arch.__init__\<close>
  itself. \<open>c_uc_const\<close> is the name space of the constants module (empty for \<^verbatim>\<open>None\<close>).
\<close>

record arch_class =
  c_name :: "string option"
  c_bits :: "int option"
  c_memory_endness :: string
  c_register_endness :: string
  c_ret_instruction :: "byte list"
  c_nop_instruction :: "byte list"
  c_registers :: "(string \<times> (int \<times> int)) list"
  c_register_names :: "(pyval \<times> string) list"
  c_cs_mode :: "int option"
  c_uc_mode :: "int option"
  c_uc_const :: "(string \<times> int) list"
  c_uc_prefix :: "string option"
  c_dynamic_tag_translation :: "(pyval \<times> pyval) list"
  c_symbol_type_translation :: "(pyval \<times> pyval) list"
  c_init_default :: "string option"

text \<open>The class attributes as \<^verbatim>\<open>Arch\<close> itself declares them (lines 308 to 388).\<close>

definition Arch :: arch_class where
  "Arch = \<lparr> c_name = None, c_bits = None,
      c_memory_endness = Endness_LE, c_register_endness = Endness_LE,
      c_ret_instruction = [], c_nop_instruction = [],
      c_registers = [], c_register_names = [],
      c_cs_mode = None, c_uc_mode = None, c_uc_const = [], c_uc_prefix = None,
      c_dynamic_tag_translation = [], c_symbol_type_translation = [],
      c_init_default = None \<rparr>"

text \<open>
  An instance: its class and the attributes the constructor may set on the instance.
  Reading an attribute that the instance does not have reads the class attribute, so a
  new instance starts with the values of its class.
\<close>

record arch =
  cls :: arch_class
  vex_archinfo :: "nat option"
  memory_endness :: string
  register_endness :: string
  cs_mode :: "int option"
  ret_instruction :: "byte list"
  nop_instruction :: "byte list"
  register_size_names :: "((int \<times> int) \<times> string) list"
  uc_mode :: "int option"
  uc_regs :: "(string \<times> int) list option"

definition new_instance :: "arch_class \<Rightarrow> arch" where
  "new_instance c = \<lparr> cls = c, vex_archinfo = None,
      memory_endness = c_memory_endness c, register_endness = c_register_endness c,
      cs_mode = c_cs_mode c,
      ret_instruction = c_ret_instruction c, nop_instruction = c_nop_instruction c,
      register_size_names = [], uc_mode = c_uc_mode c, uc_regs = None \<rparr>"

definition name :: "arch \<Rightarrow> string option" where "name self = c_name (cls self)"
definition bits :: "arch \<Rightarrow> int option" where "bits self = c_bits (cls self)"
definition registers :: "arch \<Rightarrow> (string \<times> (int \<times> int)) list" where
  "registers self = c_registers (cls self)"
definition register_names :: "arch \<Rightarrow> (pyval \<times> string) list" where
  "register_names self = c_register_names (cls self)"
definition dynamic_tag_translation :: "arch \<Rightarrow> (pyval \<times> pyval) list" where
  "dynamic_tag_translation self = c_dynamic_tag_translation (cls self)"
definition symbol_type_translation :: "arch \<Rightarrow> (pyval \<times> pyval) list" where
  "symbol_type_translation self = c_symbol_type_translation (cls self)"

subsection \<open>\<^verbatim>\<open>Arch.__init__\<close>\<close>

text \<open>
  Lines 97 and 98:
  \<^verbatim>\<open>
  if _pyvex:
      self.vex_archinfo = _pyvex.default_vex_archinfo()
  \<close>
\<close>

definition init_vex :: "env \<Rightarrow> arch \<Rightarrow> heap \<Rightarrow> arch \<times> heap" where
  "init_vex ev self h =
     (case pyvex ev of
        None \<Rightarrow> (self, h)
      | Some pv \<Rightarrow>
          (case alloc_dict (default_vex_archinfo pv) h of
             (a, h') \<Rightarrow> (self\<lparr>vex_archinfo := Some a\<rparr>, h')))"

text \<open>
  Lines 100 and 101, in the big-endian branch. A dictionary is true when it is not empty,
  \<^verbatim>\<open>None\<close> is false.
  \<^verbatim>\<open>
  if self.vex_archinfo:
      self.vex_archinfo['endness'] = _pyvex.vex_endness_from_string('VexEndnessBE')
  \<close>
\<close>

definition flip_vex :: "env \<Rightarrow> arch \<Rightarrow> heap \<Rightarrow> error + heap" where
  "flip_vex ev self h =
     (case vex_archinfo self of
        None \<Rightarrow> Inr h
      | Some a \<Rightarrow>
          if h ! a = [] then Inr h
          else (case pyvex ev of
                  None \<Rightarrow> Inl AttributeError
                | Some pv \<Rightarrow>
                    Inr (dict_setitem h a ''endness''
                           (vex_endness_from_string pv ''VexEndnessBE''))))"

text \<open>
  Lines 102 to 108, the rest of the big-endian branch:
  \<^verbatim>\<open>
  self.memory_endness = Endness.BE
  self.register_endness = Endness.BE
  if _capstone and self.cs_mode is not None:
      self.cs_mode -= _capstone.CS_MODE_LITTLE_ENDIAN
      self.cs_mode += _capstone.CS_MODE_BIG_ENDIAN
  self.ret_instruction = reverse_ends(self.ret_instruction)
  self.nop_instruction = reverse_ends(self.nop_instruction)
  \<close>
\<close>

definition flip_cs_mode :: "env \<Rightarrow> arch \<Rightarrow> arch" where
  "flip_cs_mode ev self =
     (case (capstone ev, cs_mode self) of
        (Some cs, Some m) \<Rightarrow>
          self\<lparr>cs_mode := Some (m - CS_MODE_LITTLE_ENDIAN cs + CS_MODE_BIG_ENDIAN cs)\<rparr>
      | _ \<Rightarrow> self)"

definition init_big :: "env \<Rightarrow> arch \<Rightarrow> heap \<Rightarrow> (error + arch) \<times> heap" where
  "init_big ev self h =
     (case flip_vex ev self h of
        Inl e \<Rightarrow> (Inl e, h)
      | Inr h1 \<Rightarrow>
          (let self1 = self\<lparr>memory_endness := Endness_BE, register_endness := Endness_BE\<rparr>;
               self2 = flip_cs_mode ev self1
           in case reverse_ends (ret_instruction self2) of
                Inl e \<Rightarrow> (Inl e, h1)
              | Inr r \<Rightarrow>
                  (case reverse_ends (nop_instruction self2) of
                     Inl e \<Rightarrow> (Inl e, h1)
                   | Inr n \<Rightarrow>
                       (Inr (self2\<lparr>ret_instruction := r, nop_instruction := n\<rparr>), h1))))"

text \<open>
  Lines 111 to 121, the loop over the forward register table with the table built so far
  as its accumulator:
  \<^verbatim>\<open>
  self.register_size_names = {}
  for k in self.registers:
      v = self.registers[k]
      if self.name in {'X86', 'AMD64'} and k in {'bp', 'sp', 'ip'}:
          continue
      if v in self.register_size_names and k not in self.register_names:
          continue
      self.register_size_names[v] = k
  \<close>
\<close>

fun size_names_loop ::
  "arch \<Rightarrow> (string \<times> (int \<times> int)) list \<Rightarrow> ((int \<times> int) \<times> string) list
     \<Rightarrow> ((int \<times> int) \<times> string) list" where
  "size_names_loop self [] rsn = rsn"
| "size_names_loop self ((k, v) # rest) rsn =
     (if name self \<in> {Some ''X86'', Some ''AMD64''} \<and> k \<in> {''bp'', ''sp'', ''ip''}
      then size_names_loop self rest rsn
      else if map_of rsn v \<noteq> None \<and> map_of (register_names self) (PStr k) = None
      then size_names_loop self rest rsn
      else size_names_loop self rest (AList.update v k rsn))"

text \<open>
  Lines 124 to 133:
  \<^verbatim>\<open>
  if self.uc_mode is not None:
      if endness == Endness.BE:
          self.uc_mode -= _unicorn.UC_MODE_LITTLE_ENDIAN
          self.uc_mode += _unicorn.UC_MODE_BIG_ENDIAN
      self.uc_regs = { }
      for r in self.register_names.values():
          reg_name = self.uc_prefix + 'REG_' + r.upper()
          if hasattr(self.uc_const, reg_name):
              self.uc_regs[r] = getattr(self.uc_const, reg_name)
  \<close>
\<close>

fun uc_regs_loop ::
  "arch_class \<Rightarrow> string list \<Rightarrow> (string \<times> int) list \<Rightarrow> error + (string \<times> int) list" where
  "uc_regs_loop c [] regs = Inr regs"
| "uc_regs_loop c (r # rest) regs =
     (case c_uc_prefix c of
        None \<Rightarrow> Inl TypeError
      | Some prefix \<Rightarrow>
          (case map_of (c_uc_const c) (prefix @ ''REG_'' @ upper r) of
             None \<Rightarrow> uc_regs_loop c rest regs
           | Some x \<Rightarrow> uc_regs_loop c rest (AList.update r x regs)))"

definition init_unicorn :: "env \<Rightarrow> string \<Rightarrow> arch \<Rightarrow> error + arch" where
  "init_unicorn ev endness self =
     (case uc_mode self of
        None \<Rightarrow> Inr self
      | Some m \<Rightarrow>
          (case (if endness = Endness_BE
                 then (case unicorn ev of
                         None \<Rightarrow> Inl AttributeError
                       | Some uc \<Rightarrow>
                           Inr (m - UC_MODE_LITTLE_ENDIAN uc + UC_MODE_BIG_ENDIAN uc))
                 else Inr m) of
             Inl e \<Rightarrow> Inl e
           | Inr m' \<Rightarrow>
               (case uc_regs_loop (cls self) (map snd (register_names self)) [] of
                  Inl e \<Rightarrow> Inl e
                | Inr regs \<Rightarrow> Inr (self\<lparr>uc_mode := Some m', uc_regs := Some regs\<rparr>))))"

text \<open>
  The constructor, \<^verbatim>\<open>Arch.__init__(self, endness)\<close>, lines 93 to 133. It starts with
  \<^verbatim>\<open>
  if endness not in (Endness.LE, Endness.BE, Endness.ME):
      raise ArchError('Must pass a valid VEX endness: Endness.LE or Endness.BE')
  \<close>
\<close>

definition Arch_init :: "env \<Rightarrow> arch_class \<Rightarrow> string \<Rightarrow> heap \<Rightarrow> (error + arch) \<times> heap" where
  "Arch_init ev c endness h =
     (if endness \<notin> {Endness_LE, Endness_BE, Endness_ME} then (Inl ArchError, h)
      else
        (case init_vex ev (new_instance c) h of
           (self1, h1) \<Rightarrow>
             (case (if endness = Endness_BE then init_big ev self1 h1 else (Inr self1, h1)) of
                (Inl e, h2) \<Rightarrow> (Inl e, h2)
              | (Inr self2, h2) \<Rightarrow>
                  (let self3 = self2\<lparr>register_size_names :=
                                 size_names_loop self2 (registers self2) []\<rparr>
                   in case init_unicorn ev endness self3 of
                        Inl e \<Rightarrow> (Inl e, h2)
                      | Inr self4 \<Rightarrow> (Inr self4, h2)))))"

text \<open>
  Calling a class: \<^verbatim>\<open>cls(endness)\<close> is \<open>construct ev c (Some endness)\<close> and \<^verbatim>\<open>cls()\<close> is
  \<open>construct ev c None\<close>, which raises \<^verbatim>\<open>TypeError\<close> when the constructor has no default
  for \<^verbatim>\<open>endness\<close>.
\<close>

definition construct ::
  "env \<Rightarrow> arch_class \<Rightarrow> string option \<Rightarrow> heap \<Rightarrow> (error + arch) \<times> heap" where
  "construct ev c arg h =
     (case arg of
        Some endness \<Rightarrow> Arch_init ev c endness h
      | None \<Rightarrow>
          (case c_init_default c of
             None \<Rightarrow> (Inl TypeError, h)
           | Some endness \<Rightarrow> Arch_init ev c endness h))"

subsection \<open>\<^verbatim>\<open>copy\<close>, \<^verbatim>\<open>__eq__\<close>, \<^verbatim>\<open>struct_fmt\<close> and the tag translations\<close>

text \<open>
  \<^verbatim>\<open>
  def copy(self):
      new_arch = type(self)(self.memory_endness)
      new_arch.vex_archinfo = self.vex_archinfo.copy()
      return new_arch
  \<close>
  \<^verbatim>\<open>self.vex_archinfo.copy()\<close> is the \<^verbatim>\<open>copy\<close> method of a dictionary; on \<^verbatim>\<open>None\<close> the
  attribute does not exist.
\<close>

definition copy :: "env \<Rightarrow> arch \<Rightarrow> heap \<Rightarrow> (error + arch) \<times> heap" where
  "copy ev self h =
     (case construct ev (cls self) (Some (memory_endness self)) h of
        (Inl e, h1) \<Rightarrow> (Inl e, h1)
      | (Inr new_arch, h1) \<Rightarrow>
          (case vex_archinfo self of
             None \<Rightarrow> (Inl AttributeError, h1)
           | Some a \<Rightarrow>
               (case dict_copy h1 a of
                  (a', h2) \<Rightarrow> (Inr (new_arch\<lparr>vex_archinfo := Some a'\<rparr>), h2))))"

text \<open>
  \<^verbatim>\<open>
  def __eq__(self, other):
      if not isinstance(other, Arch):
          return False
      return  self.name == other.name and \
              self.bits == other.bits and \
              self.memory_endness == other.memory_endness
  \<close>
\<close>

datatype pyobject = ArchObject arch | OtherObject

definition Arch_eq :: "arch \<Rightarrow> pyobject \<Rightarrow> bool" where
  "Arch_eq self other =
     (case other of
        OtherObject \<Rightarrow> False
      | ArchObject other \<Rightarrow>
          name self = name other \<and> bits self = bits other
          \<and> memory_endness self = memory_endness other)"

text \<open>
  \<^verbatim>\<open>struct_fmt(self, size=None)\<close>, lines 193 to 219; \<open>None\<close> is the omitted argument.
\<close>

definition struct_fmt :: "arch \<Rightarrow> int option \<Rightarrow> error + string" where
  "struct_fmt self size0 =
     (let size' = (case size0 of None \<Rightarrow> bits self | Some n \<Rightarrow> Some n);
          fmt = (if memory_endness self = Endness_BE then ''>'' else ''<'')
      in if size' = Some 64 then Inr (fmt @ ''Q'')
         else if size' = Some 32 then Inr (fmt @ ''I'')
         else if size' = Some 16 then Inr (fmt @ ''H'')
         else if size' = Some 8 then Inr (fmt @ ''B'')
         else Inl ValueError)"

text \<open>
  \<^verbatim>\<open>
  def translate_dynamic_tag(self, tag):
      try:
          return self.dynamic_tag_translation[tag]
      except KeyError:
          if isinstance(tag, (int, long)):
              l.error("Please look up and add dynamic tag type %#x for %s", tag, self.name)
          return tag
  \<close>
  and the same for \<^verbatim>\<open>translate_symbol_type\<close> with \<^verbatim>\<open>symbol_type_translation\<close>. The logger
  is a list of the records it was given. Subscripting a dictionary with a list or a
  dictionary raises \<^verbatim>\<open>TypeError\<close> (unhashable), which the handler does not catch.
\<close>

datatype log_record =
    DynamicTagError int "string option"
  | SymbolTypeError int "string option"

fun hashable :: "pyval \<Rightarrow> bool" where
  "hashable (PList xs) = False"
| "hashable (PRef a) = False"
| "hashable v = True"

definition translate_dynamic_tag ::
  "arch \<Rightarrow> pyval \<Rightarrow> log_record list \<Rightarrow> (error + pyval) \<times> log_record list" where
  "translate_dynamic_tag self tag l =
     (if \<not> hashable tag then (Inl TypeError, l)
      else case map_of (dynamic_tag_translation self) tag of
             Some v \<Rightarrow> (Inr v, l)
           | None \<Rightarrow>
               (case tag of
                  PInt i \<Rightarrow> (Inr tag, l @ [DynamicTagError i (name self)])
                | _ \<Rightarrow> (Inr tag, l)))"

definition translate_symbol_type ::
  "arch \<Rightarrow> pyval \<Rightarrow> log_record list \<Rightarrow> (error + pyval) \<times> log_record list" where
  "translate_symbol_type self tag l =
     (if \<not> hashable tag then (Inl TypeError, l)
      else case map_of (symbol_type_translation self) tag of
             Some v \<Rightarrow> (Inr v, l)
           | None \<Rightarrow>
               (case tag of
                  PInt i \<Rightarrow> (Inr tag, l @ [SymbolTypeError i (name self)])
                | _ \<Rightarrow> (Inr tag, l)))"

subsection \<open>The registry: \<^verbatim>\<open>register_arch\<close> and \<^verbatim>\<open>arch_from_id\<close>\<close>

text \<open>
  The module's global state: the store, and the two lists \<^verbatim>\<open>arch_id_map\<close> and
  \<^verbatim>\<open>all_arches\<close>. An entry of \<^verbatim>\<open>arch_id_map\<close> is the tuple
  \<^verbatim>\<open>(regexes, bits, endness, my_arch)\<close>; a regular expression is its source string.
\<close>

type_synonym entry = "string list \<times> int \<times> string \<times> arch_class"

record world =
  heap :: heap
  arch_id_map :: "entry list"
  all_arches :: "arch list"

text \<open>
  Lines 413 to 419, the loop that validates the regular expressions:
  \<^verbatim>\<open>
  for rx in regexes:
      if not isinstance(rx, str) and not isinstance(rx,re._pattern_type):
          raise TypeError("Each regex must be a string or compiled regular expression")
      try:
          re.compile(rx)
      except:
          raise ValueError('Invalid Regular Expression %s' % rx)
  \<close>
\<close>

fun check_regexes :: "env \<Rightarrow> pyval list \<Rightarrow> error + string list" where
  "check_regexes ev [] = Inr []"
| "check_regexes ev (PStr rx # rest) =
     (if re_compiles ev rx
      then (case check_regexes ev rest of Inl e \<Rightarrow> Inl e | Inr rxs \<Rightarrow> Inr (rx # rxs))
      else Inl ValueError)"
| "check_regexes ev (_ # rest) = Inl TypeError"

text \<open>
  Lines 427 to 432, after the checks:
  \<^verbatim>\<open>
  arch_id_map.append((regexes, bits, endness, my_arch))
  if endness == 'any':
      all_arches.append(my_arch(Endness.BE))
      all_arches.append(my_arch(Endness.LE))
  else:
      all_arches.append(my_arch(endness))
  \<close>
\<close>

definition append_instance ::
  "env \<Rightarrow> arch_class \<Rightarrow> string \<Rightarrow> world \<Rightarrow> (error + unit) \<times> world" where
  \<comment> \<open>\<^verbatim>\<open>all_arches.append(my_arch(endness))\<close>\<close>
  "append_instance ev my_arch endness w =
     (case construct ev my_arch (Some endness) (heap w) of
        (Inl e, h) \<Rightarrow> (Inl e, w\<lparr>heap := h\<rparr>)
      | (Inr a, h) \<Rightarrow> (Inr (), w\<lparr>heap := h, all_arches := all_arches w @ [a]\<rparr>))"

definition do_register ::
  "env \<Rightarrow> string list \<Rightarrow> int \<Rightarrow> string \<Rightarrow> arch_class \<Rightarrow> world \<Rightarrow> (error + unit) \<times> world" where
  "do_register ev regexes bits' endness my_arch w =
     (let w1 = w\<lparr>arch_id_map := arch_id_map w @ [(regexes, bits', endness, my_arch)]\<rparr>
      in if endness = ''any''
         then (case append_instance ev my_arch Endness_BE w1 of
                 (Inl e, w2) \<Rightarrow> (Inl e, w2)
               | (Inr u, w2) \<Rightarrow> append_instance ev my_arch Endness_LE w2)
         else append_instance ev my_arch endness w1)"

text \<open>
  \<^verbatim>\<open>register_arch(regexes, bits, endness, my_arch)\<close>, lines 411 to 432. The checks before
  the append are
  \<^verbatim>\<open>
  if not isinstance(regexes, list):
      raise TypeError("regexes must be a list")
  for rx in regexes: ...
  if not isinstance(bits, int):
      raise TypeError("Bits must be an int")
  if not isinstance(endness,str):
      if endness != Endness.BE and endness != Endness.LE and endness != "any":
          raise TypeError("Endness must be Endness.BE, Endness.LE, or 'any'")
  \<close>
  A value that is not a string differs from the three strings, so the last check raises
  for every \<^verbatim>\<open>endness\<close> that is not a string and for no string.
\<close>

definition register_arch ::
  "env \<Rightarrow> pyval \<Rightarrow> pyval \<Rightarrow> pyval \<Rightarrow> arch_class \<Rightarrow> world \<Rightarrow> (error + unit) \<times> world" where
  "register_arch ev regexes bits' endness my_arch w =
     (case regexes of
        PList rxs \<Rightarrow>
          (case check_regexes ev rxs of
             Inl e \<Rightarrow> (Inl e, w)
           | Inr regexes' \<Rightarrow>
               (case bits' of
                  PInt n \<Rightarrow>
                    (case endness of
                       PStr endness' \<Rightarrow> do_register ev regexes' n endness' my_arch w
                     | _ \<Rightarrow> (Inl TypeError, w))
                | _ \<Rightarrow> (Inl TypeError, w)))
      | _ \<Rightarrow> (Inl TypeError, w))"







subsection \<open>Example inputs\<close>

text \<open>
  Inputs for the closed instances below. In \<open>no_backends\<close> the three optional imports
  have failed. \<open>caret_match\<close> stands for \<^verbatim>\<open>re.match\<close> on patterns of the form
  \<^verbatim>\<open>^literal\<close>, the only patterns of the instances. \<open>with_pyvex\<close> has a lifting backend
  whose default blob holds a nested dictionary. \<open>ArchExample\<close> is a variant with
  four-byte instructions, \<open>ArchShort\<close> one with a one-byte return instruction.
\<close>

definition caret_match :: "string \<Rightarrow> string \<Rightarrow> bool" where
  "caret_match rx s = (rx \<noteq> [] \<and> hd rx = CHR ''^'' \<and> take (length (tl rx)) s = tl rx)"

definition no_backends :: env where
  "no_backends = \<lparr> pyvex = None, capstone = None, unicorn = None,
      re_compiles = (\<lambda>rx. True), re_match = caret_match \<rparr>"

definition with_pyvex :: env where
  "with_pyvex = \<lparr> pyvex = Some \<lparr> default_vex_archinfo =
          [(''hwcaps'', BAtom (PInt 0)), (''endness'', BAtom (PInt 1537)),
           (''hwcache_info'', BDict [(''num_levels'', BAtom (PInt 0))])],
        vex_endness_from_string = (\<lambda>s. PInt 1538) \<rparr>,
      capstone = None, unicorn = None,
      re_compiles = (\<lambda>rx. True), re_match = caret_match \<rparr>"

definition ArchExample :: arch_class where
  "ArchExample = Arch \<lparr> c_name := Some ''EXAMPLE'', c_bits := Some 32,
      c_ret_instruction := [0x0E, 0xF0, 0xA0, 0xE1],
      c_nop_instruction := [0x00, 0x00, 0x00, 0x00],
      c_init_default := Some Endness_LE \<rparr>"

definition ArchShort :: arch_class where
  "ArchShort = Arch \<lparr> c_name := Some ''SHORT'', c_bits := Some 32,
      c_ret_instruction := [0xC3], c_nop_instruction := [0x90],
      c_init_default := Some Endness_LE \<rparr>"

definition empty_world :: world where
  "empty_world = \<lparr> heap = [], arch_id_map = [], all_arches = [] \<rparr>"

text \<open>
  \<open>ArchClash\<close> declares two names for one (offset, size) pair, the second of which is
  also a key of the display map. \<open>ArchX86\<close> has the name \<^verbatim>\<open>X86\<close> and the generic name
  \<^verbatim>\<open>sp\<close> before \<^verbatim>\<open>esp\<close>.
\<close>

definition ArchClash :: arch_class where
  "ArchClash = Arch \<lparr> c_name := Some ''CLASH'', c_bits := Some 32,
      c_registers := [(''a'', (0, 4)), (''b'', (0, 4)), (''c'', (0, 4)), (''d'', (8, 4))],
      c_register_names := [(PInt 0, ''a''), (PStr ''b'', ''b''), (PInt 8, ''d'')] \<rparr>"

definition ArchX86 :: arch_class where
  "ArchX86 = Arch \<lparr> c_name := Some ''X86'', c_bits := Some 32,
      c_registers := [(''sp'', (24, 4)), (''esp'', (24, 4)), (''eax'', (8, 4)), (''ax'', (8, 2))],
      c_register_names := [(PInt 8, ''eax''), (PInt 24, ''esp'')] \<rparr>"

text \<open>
  The expressions \<^verbatim>\<open>d[k1][k2]\<close> and \<^verbatim>\<open>d[k1][k2] = v\<close> on the dictionary at address
  \<open>a\<close>, for a nested dictionary under \<open>k1\<close> (nothing is read, and the store is left as
  it is, when there is none). \<open>example_original\<close> is a descriptor constructed with the
  lifting backend present, \<open>example_copy\<close> its copy, and \<open>example_mutated\<close> the store
  after \<^verbatim>\<open>copy.vex_archinfo['hwcache_info']['num_levels'] = 5\<close>.
\<close>

definition nested_getitem :: "heap \<Rightarrow> nat \<Rightarrow> string \<Rightarrow> string \<Rightarrow> pyval option" where
  "nested_getitem h a k1 k2 =
     (case dict_getitem h a k1 of Some (PRef r) \<Rightarrow> dict_getitem h r k2 | _ \<Rightarrow> None)"

definition nested_setitem :: "heap \<Rightarrow> nat \<Rightarrow> string \<Rightarrow> string \<Rightarrow> pyval \<Rightarrow> heap" where
  "nested_setitem h a k1 k2 v =
     (case dict_getitem h a k1 of Some (PRef r) \<Rightarrow> dict_setitem h r k2 v | _ \<Rightarrow> h)"

definition example_original :: "(error + arch) \<times> heap" where
  "example_original = Arch_init with_pyvex ArchExample Endness_LE []"

definition example_copy :: "(error + arch) \<times> heap" where
  "example_copy = copy with_pyvex (projr (fst example_original)) (snd example_original)"

definition example_mutated :: heap where
  "example_mutated =
     nested_setitem (snd example_copy) (the (vex_archinfo (projr (fst example_copy))))
       ''hwcache_info'' ''num_levels'' (PInt 5)"

subsection \<open>Facts about \<^verbatim>\<open>reverse_ends\<close>\<close>

lemma byte_digit:
  fixes a q :: nat
  assumes "a < 256"
  shows "(a + 256 * q) div 256 = q" and "(a + 256 * q) mod 256 = a"
  using assms by simp_all

lemma four_digits:
  fixes a b c d :: nat
  assumes "a < 256" "b < 256" "c < 256" "d < 256"
  shows "(a + 256 * b + 65536 * c + 16777216 * d) div 16777216 mod 256 = d"
    and "(a + 256 * b + 65536 * c + 16777216 * d) div 65536 mod 256 = c"
    and "(a + 256 * b + 65536 * c + 16777216 * d) div 256 mod 256 = b"
    and "(a + 256 * b + 65536 * c + 16777216 * d) mod 256 = a"
proof -
  define x where "x = a + 256 * b + 65536 * c + 16777216 * d"
  have x: "x = a + 256 * (b + 256 * (c + 256 * d))" by (simp add: x_def)
  have d1: "x div 256 = b + 256 * (c + 256 * d)" and m1: "x mod 256 = a"
    unfolding x using assms(1) by (rule byte_digit)+
  have d2: "x div 65536 = c + 256 * d"
  proof -
    have "x div 65536 = x div 256 div 256" by (simp add: div_mult2_eq)
    also have "\<dots> = c + 256 * d" unfolding d1 using assms(2) by (rule byte_digit)
    finally show ?thesis .
  qed
  have d3: "x div 16777216 = d"
  proof -
    have "x div 16777216 = x div 65536 div 256" by (simp add: div_mult2_eq)
    also have "\<dots> = d" unfolding d2 using assms(3) byte_digit(1) [of c d] by simp
    finally show ?thesis .
  qed
  show "(a + 256 * b + 65536 * c + 16777216 * d) div 16777216 mod 256 = d"
    unfolding x_def [symmetric] d3 using assms(4) by simp
  show "(a + 256 * b + 65536 * c + 16777216 * d) div 65536 mod 256 = c"
    unfolding x_def [symmetric] d2 using assms(3) by (rule byte_digit)
  show "(a + 256 * b + 65536 * c + 16777216 * d) div 256 mod 256 = b"
    unfolding x_def [symmetric] d1 using assms(2) by (rule byte_digit)
  show "(a + 256 * b + 65536 * c + 16777216 * d) mod 256 = a"
    unfolding x_def [symmetric] m1 ..
qed

lemma unat_byte_less: "unat (a::byte) < 256"
  using unsigned_less [of a, where ?'a = nat] by simp

lemma pack_unpack_group:
  "pack_BE_I (unat (a::byte) + 256 * unat (b::byte) + 65536 * unat (c::byte)
      + 16777216 * unat (d::byte)) = [d, c, b, a]"
  unfolding pack_BE_I_def
  by (simp only: four_digits [OF unat_byte_less unat_byte_less unat_byte_less unat_byte_less])
     simp

lemma group_in_range:
  "unat (a::byte) + 256 * unat (b::byte) + 65536 * unat (c::byte) + 16777216 * unat (d::byte)
     < 4294967296"
  using unat_byte_less [of a] unat_byte_less [of b] unat_byte_less [of c] unat_byte_less [of d]
  by simp

lemma length_unpack_LE_I: "length (unpack_LE_I s) = length s div 4"
  by (induction s rule: unpack_LE_I.induct) simp_all

lemma unpack_LE_I_in_range: "x \<in> set (unpack_LE_I s) \<Longrightarrow> x < 4294967296"
  by (induction s rule: unpack_LE_I.induct) (auto simp: group_in_range)

lemma pack_unpack_groups:
  "length s mod 4 = 0 \<Longrightarrow> concat (map pack_BE_I (unpack_LE_I s)) = rev_groups4 s"
  by (induction s rule: unpack_LE_I.induct) (simp_all add: pack_unpack_group)

lemma length_rev_groups4: "length (rev_groups4 s) = length s"
  by (induction s rule: rev_groups4.induct) simp_all

lemma rev_groups4_twice: "rev_groups4 (rev_groups4 s) = s"
  by (induction s rule: rev_groups4.induct) simp_all

lemma reverse_ends_groups:
  "length s mod 4 = 0 \<Longrightarrow> reverse_ends s = Inr (rev_groups4 s)"
proof -
  assume m: "length s mod 4 = 0"
  then have l: "length s = 4 * (length s div 4)" by presburger
  have r: "\<not> (\<exists>x \<in> set (unpack_LE_I s). 4294967296 \<le> x)"
    using unpack_LE_I_in_range [of _ s] by (auto simp: not_le)
  show ?thesis
    unfolding reverse_ends_def Let_def struct_unpack_LE_I_def struct_pack_BE_I_def
    using l r by (simp add: length_unpack_LE_I pack_unpack_groups [OF m])
qed

lemma reverse_ends_error:
  "length s mod 4 \<noteq> 0 \<Longrightarrow> reverse_ends s = Inl StructError"
proof -
  assume "length s mod 4 \<noteq> 0"
  then have "length s \<noteq> 4 * (length s div 4)" by presburger
  then show ?thesis
    unfolding reverse_ends_def Let_def struct_unpack_LE_I_def by simp
qed

text \<open>
  C10. \<^verbatim>\<open>reverse_ends\<close> is an involution on byte strings whose length is a multiple of
  four: it returns a byte string (it does not raise), and applying it to that result
  returns the original string.
\<close>

theorem reverse_ends_involution:
  assumes "length s mod 4 = 0"
  shows "\<exists>t. reverse_ends s = Inr t \<and> reverse_ends t = Inr s"
proof -
  have 1: "reverse_ends s = Inr (rev_groups4 s)"
    using assms by (rule reverse_ends_groups)
  have "length (rev_groups4 s) mod 4 = 0"
    using assms by (simp add: length_rev_groups4)
  then have "reverse_ends (rev_groups4 s) = Inr (rev_groups4 (rev_groups4 s))"
    by (rule reverse_ends_groups)
  then have 2: "reverse_ends (rev_groups4 s) = Inr s"
    by (simp add: rev_groups4_twice)
  from 1 2 show ?thesis by blast
qed

theorem reverse_ends_involution_witness:
  "length [1, 2, 3, 4, 5, 6, 7, 8 :: byte] mod 4 = 0
   \<and> reverse_ends [1, 2, 3, 4, 5, 6, 7, 8 :: byte] = Inr [4, 3, 2, 1, 8, 7, 6, 5]
   \<and> reverse_ends [4, 3, 2, 1, 8, 7, 6, 5 :: byte] = Inr [1, 2, 3, 4, 5, 6, 7, 8]"
proof -
  have m: "length [1, 2, 3, 4, 5, 6, 7, 8 :: byte] mod 4 = 0" by simp
  have g: "reverse_ends [1, 2, 3, 4, 5, 6, 7, 8 :: byte] = Inr [4, 3, 2, 1, 8, 7, 6, 5]"
    using reverse_ends_groups [OF m] by simp
  show ?thesis
    using reverse_ends_involution [OF m] m g by auto
qed

subsection \<open>Equality, pack formats and tag translation\<close>

lemmas Endness_defs = Endness_LE_def Endness_BE_def Endness_ME_def

lemma Endness_distinct [simp]:
  "Endness_LE \<noteq> Endness_BE" "Endness_BE \<noteq> Endness_LE"
  "Endness_LE \<noteq> Endness_ME" "Endness_ME \<noteq> Endness_LE"
  "Endness_BE \<noteq> Endness_ME" "Endness_ME \<noteq> Endness_BE"
  by (simp_all add: Endness_defs)

lemma Endness_not_any [simp]:
  "Endness_LE \<noteq> ''any''" "Endness_BE \<noteq> ''any''" "Endness_ME \<noteq> ''any''"
  "Endness_LE \<noteq> ''unsure''" "Endness_BE \<noteq> ''unsure''" "Endness_ME \<noteq> ''unsure''"
  by (simp_all add: Endness_defs)

text \<open>
  C7. Two descriptors are equal if and only if their names, their word widths and their
  memory endiannesses agree. So two descriptors that differ in memory endianness are not
  equal, whatever else they share, and the lifting backend's blob plays no part: the
  comparison does not read the store, and replacing the references to the blobs does not
  change its result.
\<close>

theorem Arch_eq_triple:
  "(Arch_eq a (ArchObject b) \<longleftrightarrow>
      (name a, bits a, memory_endness a) = (name b, bits b, memory_endness b))
   \<and> (memory_endness a \<noteq> memory_endness b \<longrightarrow> \<not> Arch_eq a (ArchObject b))
   \<and> Arch_eq (a\<lparr>vex_archinfo := x\<rparr>) (ArchObject (b\<lparr>vex_archinfo := y\<rparr>))
       = Arch_eq a (ArchObject b)"
  by (auto simp: Arch_eq_def name_def bits_def)

theorem Arch_eq_triple_witness:
  "Arch_eq (new_instance Arch) (ArchObject (new_instance Arch))
   \<and> memory_endness (new_instance Arch)
       \<noteq> memory_endness ((new_instance Arch)\<lparr>memory_endness := Endness_BE\<rparr>)
   \<and> \<not> Arch_eq (new_instance Arch)
         (ArchObject ((new_instance Arch)\<lparr>memory_endness := Endness_BE\<rparr>))
   \<and> Arch_eq ((new_instance Arch)\<lparr>vex_archinfo := Some 0\<rparr>)
         (ArchObject ((new_instance Arch)\<lparr>vex_archinfo := Some 1\<rparr>))"
  using Arch_eq_triple [of "new_instance Arch" "new_instance Arch" "Some 0" "Some 1"]
    Arch_eq_triple [of "new_instance Arch"
      "(new_instance Arch)\<lparr>memory_endness := Endness_BE\<rparr>" "Some 0" "Some 1"]
  by (simp add: new_instance_def Arch_def)

text \<open>
  C9. \<^verbatim>\<open>struct_fmt\<close> returns a format exactly when the size, or the descriptor's word
  width when the size is omitted, is 8, 16, 32 or 64, and raises \<^verbatim>\<open>ValueError\<close> (the
  specification's UnsupportedWidth) for every other size. A returned format starts with
  \<open>>\<close> if the memory endianness is big and with \<open><\<close> otherwise; size 32 on a
  little-endian descriptor gives \<open><I\<close>.
\<close>

theorem struct_fmt_widths:
  "((\<exists>fmt. struct_fmt a sz = Inr fmt) \<longleftrightarrow>
      (case sz of None \<Rightarrow> bits a | Some n \<Rightarrow> Some n) \<in> {Some 8, Some 16, Some 32, Some 64})
   \<and> ((case sz of None \<Rightarrow> bits a | Some n \<Rightarrow> Some n) \<notin> {Some 8, Some 16, Some 32, Some 64}
        \<longrightarrow> struct_fmt a sz = Inl ValueError)
   \<and> (\<forall>fmt. struct_fmt a sz = Inr fmt \<longrightarrow>
         length fmt = 2 \<and> (hd fmt = CHR ''>'' \<longleftrightarrow> memory_endness a = Endness_BE)
         \<and> (hd fmt = CHR ''<'' \<longleftrightarrow> memory_endness a \<noteq> Endness_BE))
   \<and> (memory_endness a = Endness_LE \<longrightarrow> struct_fmt a (Some 32) = Inr ''<I'')"
  by (auto simp: struct_fmt_def Let_def split: option.splits if_splits)

theorem struct_fmt_widths_witness:
  "struct_fmt (new_instance Arch) (Some 32) = Inr ''<I''
   \<and> struct_fmt (new_instance Arch) (Some 7) = Inl ValueError
   \<and> struct_fmt (new_instance (Arch\<lparr>c_bits := Some 64\<rparr>)) None = Inr ''<Q''
   \<and> struct_fmt ((new_instance Arch)\<lparr>memory_endness := Endness_BE\<rparr>) (Some 16) = Inr ''>H''"
proof -
  have le: "memory_endness (new_instance Arch) = Endness_LE"
    by (simp add: new_instance_def Arch_def)
  have 1: "struct_fmt (new_instance Arch) (Some 32) = Inr ''<I''"
    using struct_fmt_widths [of "new_instance Arch" "Some 32"] le by simp
  have 2: "struct_fmt (new_instance Arch) (Some 7) = Inl ValueError"
    using struct_fmt_widths [of "new_instance Arch" "Some 7"] by simp
  have 3: "struct_fmt (new_instance (Arch\<lparr>c_bits := Some 64\<rparr>)) None = Inr ''<Q''"
    by (simp add: struct_fmt_def new_instance_def Arch_def bits_def)
  have 4: "struct_fmt ((new_instance Arch)\<lparr>memory_endness := Endness_BE\<rparr>) (Some 16) = Inr ''>H''"
    by (simp add: struct_fmt_def)
  from 1 2 3 4 show ?thesis by simp
qed

text \<open>
  C4. For an integer tag that is not a key of the translation table,
  \<^verbatim>\<open>translate_dynamic_tag\<close> and \<^verbatim>\<open>translate_symbol_type\<close> return the tag itself; they
  do not raise, and the only effect is one more record in the log.
\<close>

theorem translate_unknown_tag:
  "(map_of (dynamic_tag_translation a) (PInt i) = None \<longrightarrow>
      translate_dynamic_tag a (PInt i) l = (Inr (PInt i), l @ [DynamicTagError i (name a)]))
   \<and> (map_of (symbol_type_translation a) (PInt i) = None \<longrightarrow>
      translate_symbol_type a (PInt i) l = (Inr (PInt i), l @ [SymbolTypeError i (name a)]))"
  by (simp add: translate_dynamic_tag_def translate_symbol_type_def)

theorem translate_unknown_tag_witness:
  "map_of (dynamic_tag_translation
       (new_instance (Arch\<lparr>c_dynamic_tag_translation := [(PInt 1, PStr ''DT_NEEDED'')]\<rparr>)))
     (PInt 99) = None
   \<and> translate_dynamic_tag
       (new_instance (Arch\<lparr>c_dynamic_tag_translation := [(PInt 1, PStr ''DT_NEEDED'')]\<rparr>))
       (PInt 99) [] = (Inr (PInt 99), [DynamicTagError 99 None])
   \<and> translate_symbol_type
       (new_instance (Arch\<lparr>c_dynamic_tag_translation := [(PInt 1, PStr ''DT_NEEDED'')]\<rparr>))
       (PInt 99) [] = (Inr (PInt 99), [SymbolTypeError 99 None])"
  using translate_unknown_tag
    [of "new_instance (Arch\<lparr>c_dynamic_tag_translation := [(PInt 1, PStr ''DT_NEEDED'')]\<rparr>)"
      99 "[]"]
  by (simp add: dynamic_tag_translation_def symbol_type_translation_def name_def
      new_instance_def Arch_def)

subsection \<open>The store during construction\<close>

lemma alloc_extends:
  "alloc b h = (v, h') \<Longrightarrow> \<exists>ys. h' = h @ ys"
  "alloc_items kvs h = (d, h') \<Longrightarrow> (\<exists>ys. h' = h @ ys) \<and> map fst d = map fst kvs"
proof (induction b h and kvs h arbitrary: v h' and d h' rule: alloc_alloc_items.induct)
  case (1 v0 h)
  then show ?case by simp
next
  case (2 kvs h)
  obtain d0 h0 where a: "alloc_items kvs h = (d0, h0)" by force
  with 2 show ?case by auto
next
  case (3 h)
  then show ?case by simp
next
  case (4 kv kvs h)
  obtain v1 h1 where a: "alloc (snd kv) h = (v1, h1)" by force
  obtain d2 h2 where b: "alloc_items kvs h1 = (d2, h2)" by force
  from 4(1) [OF a] obtain ys where ys: "h1 = h @ ys" by blast
  from 4(2) [OF a [symmetric] b] obtain zs where zs: "h2 = h1 @ zs"
    and ks: "map fst d2 = map fst kvs" by blast
  from 4(3) a b ys zs ks show ?case by auto
qed

lemma alloc_dict_props:
  assumes "alloc_dict kvs h = (a, h')"
  shows "\<exists>ys. h' = h @ ys" and "length h \<le> a" and "a < length h'"
    and "h' ! a = [] \<longleftrightarrow> kvs = []"
proof -
  obtain d h0 where d: "alloc_items kvs h = (d, h0)" by force
  from alloc_extends(2) [OF d] obtain ys where ys: "h0 = h @ ys"
    and ks: "map fst d = map fst kvs" by blast
  from assms d have a: "a = length h0" and h': "h' = h0 @ [d]"
    by (simp_all add: alloc_dict_def)
  show "\<exists>ys. h' = h @ ys" using h' ys by simp
  show "length h \<le> a" using a ys by simp
  show "a < length h'" using a h' by simp
  have "d = [] \<longleftrightarrow> kvs = []" using ks by (metis map_is_Nil_conv)
  then show "h' ! a = [] \<longleftrightarrow> kvs = []" using a h' by simp
qed

lemma init_vex_props:
  assumes "init_vex ev self h = (self', h')"
  shows "\<exists>ys. h' = h @ ys"
    and "self' = self\<lparr>vex_archinfo := vex_archinfo self'\<rparr>"
    and "pyvex ev = None \<Longrightarrow> vex_archinfo self' = vex_archinfo self \<and> h' = h"
    and "pyvex ev = Some pv \<Longrightarrow>
           \<exists>a. vex_archinfo self' = Some a \<and> length h \<le> a \<and> a < length h'
             \<and> (h' ! a = [] \<longleftrightarrow> default_vex_archinfo pv = [])"
proof -
  show "\<exists>ys. h' = h @ ys"
  proof (cases "pyvex ev")
    case None
    with assms show ?thesis by (simp add: init_vex_def)
  next
    case (Some pv)
    obtain a h0 where a: "alloc_dict (default_vex_archinfo pv) h = (a, h0)" by force
    with Some assms have "h' = h0" by (simp add: init_vex_def)
    with alloc_dict_props(1) [OF a] show ?thesis by simp
  qed
  show "self' = self\<lparr>vex_archinfo := vex_archinfo self'\<rparr>"
    using assms by (auto simp: init_vex_def split: option.splits prod.splits)
  show "pyvex ev = None \<Longrightarrow> vex_archinfo self' = vex_archinfo self \<and> h' = h"
    using assms by (auto simp: init_vex_def)
  show "pyvex ev = Some pv \<Longrightarrow>
           \<exists>a. vex_archinfo self' = Some a \<and> length h \<le> a \<and> a < length h'
             \<and> (h' ! a = [] \<longleftrightarrow> default_vex_archinfo pv = [])"
  proof -
    assume pv: "pyvex ev = Some pv"
    obtain a h0 where a: "alloc_dict (default_vex_archinfo pv) h = (a, h0)" by force
    with pv assms have "h' = h0" "vex_archinfo self' = Some a"
      by (auto simp: init_vex_def)
    with alloc_dict_props [OF a] show ?thesis by simp
  qed
qed

lemma update_not_Nil: "AList.update k v d \<noteq> []"
  by (cases d) (auto simp: AList.update.simps)

lemma dict_setitem_append:
  "length h0 \<le> a \<Longrightarrow> \<exists>zs. dict_setitem (h0 @ ys) a k v = h0 @ zs"
  by (simp add: dict_setitem_def list_update_append)

lemma dict_setitem_length: "length (dict_setitem h a k v) = length h"
  by (simp add: dict_setitem_def)

lemma dict_setitem_other: "a \<noteq> b \<Longrightarrow> dict_setitem h a k v ! b = h ! b"
  by (simp add: dict_setitem_def)

lemma dict_setitem_same_not_Nil: "a < length h \<Longrightarrow> dict_setitem h a k v ! a \<noteq> []"
  by (simp add: dict_setitem_def update_not_Nil)

lemma flip_vex_props:
  assumes "flip_vex ev self h = Inr h'"
  shows "length h' = length h"
    and "vex_archinfo self = None \<Longrightarrow> h' = h"
    and "vex_archinfo self = Some a \<Longrightarrow> a < length h \<Longrightarrow> (h' ! a = [] \<longleftrightarrow> h ! a = [])"
    and "vex_archinfo self = Some a \<Longrightarrow> h = h0 @ ys \<Longrightarrow> length h0 \<le> a
           \<Longrightarrow> \<exists>zs. h' = h0 @ zs"
proof -
  show "length h' = length h"
    using assms by (auto simp: flip_vex_def dict_setitem_length split: option.splits if_splits)
  show "vex_archinfo self = None \<Longrightarrow> h' = h"
    using assms by (simp add: flip_vex_def)
  show "vex_archinfo self = Some a \<Longrightarrow> a < length h \<Longrightarrow> (h' ! a = [] \<longleftrightarrow> h ! a = [])"
    using assms
    by (auto simp: flip_vex_def dict_setitem_same_not_Nil split: option.splits if_splits)
  show "vex_archinfo self = Some a \<Longrightarrow> h = h0 @ ys \<Longrightarrow> length h0 \<le> a
           \<Longrightarrow> \<exists>zs. h' = h0 @ zs"
    using assms dict_setitem_append [of h0 a ys]
    by (auto simp: flip_vex_def split: option.splits if_splits)
qed

lemma flip_vex_total:
  "vex_archinfo self = None \<or> pyvex ev \<noteq> None \<Longrightarrow> \<exists>h'. flip_vex ev self h = Inr h'"
  by (auto simp: flip_vex_def split: option.splits)

lemma flip_cs_mode_fields:
  "flip_cs_mode ev self = self\<lparr>cs_mode := cs_mode (flip_cs_mode ev self)\<rparr>"
  by (simp add: flip_cs_mode_def split: option.splits)

lemma init_big_Inr:
  assumes "init_big ev self h = (Inr self', h')"
  shows "flip_vex ev self h = Inr h'"
    and "reverse_ends (ret_instruction self) = Inr (ret_instruction self')"
    and "reverse_ends (nop_instruction self) = Inr (nop_instruction self')"
    and "self' = self\<lparr>memory_endness := Endness_BE, register_endness := Endness_BE,
            cs_mode := cs_mode self', ret_instruction := ret_instruction self',
            nop_instruction := nop_instruction self'\<rparr>"
proof -
  obtain h1 where h1: "flip_vex ev self h = Inr h1"
    using assms by (cases "flip_vex ev self h") (auto simp: init_big_def)
  define s2 where "s2 = flip_cs_mode ev
    (self\<lparr>memory_endness := Endness_BE, register_endness := Endness_BE\<rparr>)"
  have s2: "s2 = self\<lparr>memory_endness := Endness_BE, register_endness := Endness_BE,
      cs_mode := cs_mode s2\<rparr>"
    unfolding s2_def by (subst flip_cs_mode_fields) simp
  have ri: "ret_instruction s2 = ret_instruction self"
    and ni: "nop_instruction s2 = nop_instruction self"
    by (subst s2, simp)+
  obtain r where r: "reverse_ends (ret_instruction self) = Inr r"
    using assms h1 ri
    by (cases "reverse_ends (ret_instruction self)")
       (auto simp: init_big_def Let_def s2_def [symmetric])
  obtain n where n: "reverse_ends (nop_instruction self) = Inr n"
    using assms h1 ri ni r
    by (cases "reverse_ends (nop_instruction self)")
       (auto simp: init_big_def Let_def s2_def [symmetric])
  have res: "self' = s2\<lparr>ret_instruction := r, nop_instruction := n\<rparr>" and hh: "h' = h1"
    using assms h1 ri ni r n by (auto simp: init_big_def Let_def s2_def [symmetric])
  show "flip_vex ev self h = Inr h'" using h1 hh by simp
  show "reverse_ends (ret_instruction self) = Inr (ret_instruction self')"
    using r res by simp
  show "reverse_ends (nop_instruction self) = Inr (nop_instruction self')"
    using n res by simp
  show "self' = self\<lparr>memory_endness := Endness_BE, register_endness := Endness_BE,
            cs_mode := cs_mode self', ret_instruction := ret_instruction self',
            nop_instruction := nop_instruction self'\<rparr>"
    by (subst res, subst s2, simp add: res)
qed

lemma init_big_total:
  assumes "flip_vex ev self h = Inr h1"
    and "reverse_ends (ret_instruction self) = Inr r"
    and "reverse_ends (nop_instruction self) = Inr n"
  shows "\<exists>self'. init_big ev self h = (Inr self', h1)"
proof -
  define s2 where "s2 = flip_cs_mode ev
    (self\<lparr>memory_endness := Endness_BE, register_endness := Endness_BE\<rparr>)"
  have s2: "s2 = self\<lparr>memory_endness := Endness_BE, register_endness := Endness_BE,
      cs_mode := cs_mode s2\<rparr>"
    unfolding s2_def by (subst flip_cs_mode_fields) simp
  have ri: "ret_instruction s2 = ret_instruction self"
    and ni: "nop_instruction s2 = nop_instruction self"
    by (subst s2, simp)+
  show ?thesis
    using assms ri ni by (simp add: init_big_def Let_def s2_def [symmetric])
qed

lemma init_unicorn_Inr:
  "init_unicorn ev e self = Inr self' \<Longrightarrow>
     self' = self\<lparr>uc_mode := uc_mode self', uc_regs := uc_regs self'\<rparr>"
  by (auto simp: init_unicorn_def split: option.splits sum.splits if_splits)

lemma uc_regs_loop_total:
  "c_uc_prefix c \<noteq> None \<or> rs = [] \<Longrightarrow> \<exists>regs'. uc_regs_loop c rs regs = Inr regs'"
  by (induction rs arbitrary: regs) (auto split: option.splits)

lemma init_unicorn_total:
  assumes "c_uc_mode (cls self) = None \<or> (unicorn ev \<noteq> None \<and> c_uc_prefix (cls self) \<noteq> None)"
    and "uc_mode self = c_uc_mode (cls self)"
  shows "\<exists>self'. init_unicorn ev e self = Inr self'"
proof (cases "uc_mode self")
  case None
  then show ?thesis by (simp add: init_unicorn_def)
next
  case (Some m)
  with assms have u: "unicorn ev \<noteq> None" and p: "c_uc_prefix (cls self) \<noteq> None" by auto
  from uc_regs_loop_total [of "cls self" "map snd (register_names self)" "[]"] p
  obtain regs where "uc_regs_loop (cls self) (map snd (register_names self)) [] = Inr regs"
    by blast
  with Some u show ?thesis by (auto simp: init_unicorn_def)
qed

lemma size_names_loop_cls:
  "cls s = cls s' \<Longrightarrow> size_names_loop s rs m = size_names_loop s' rs m"
  by (induction rs arbitrary: m) (auto simp: name_def register_names_def)

subsection \<open>What the constructor returns\<close>

lemma init_vex_fields:
  assumes "init_vex ev self h = (self', h')"
  shows "cls self' = cls self" "memory_endness self' = memory_endness self"
    "register_endness self' = register_endness self"
    "ret_instruction self' = ret_instruction self"
    "nop_instruction self' = nop_instruction self" "uc_mode self' = uc_mode self"
  using arg_cong [OF init_vex_props(2) [OF assms], of cls]
    arg_cong [OF init_vex_props(2) [OF assms], of memory_endness]
    arg_cong [OF init_vex_props(2) [OF assms], of register_endness]
    arg_cong [OF init_vex_props(2) [OF assms], of ret_instruction]
    arg_cong [OF init_vex_props(2) [OF assms], of nop_instruction]
    arg_cong [OF init_vex_props(2) [OF assms], of uc_mode]
  by simp_all

lemma init_big_fields:
  assumes "init_big ev self h = (Inr self', h')"
  shows "cls self' = cls self" "memory_endness self' = Endness_BE"
    "register_endness self' = Endness_BE" "uc_mode self' = uc_mode self"
    "vex_archinfo self' = vex_archinfo self"
  using arg_cong [OF init_big_Inr(4) [OF assms], of cls]
    arg_cong [OF init_big_Inr(4) [OF assms], of memory_endness]
    arg_cong [OF init_big_Inr(4) [OF assms], of register_endness]
    arg_cong [OF init_big_Inr(4) [OF assms], of uc_mode]
    arg_cong [OF init_big_Inr(4) [OF assms], of vex_archinfo]
  by simp_all

lemma init_unicorn_fields:
  assumes "init_unicorn ev e self = Inr self'"
  shows "cls self' = cls self" "memory_endness self' = memory_endness self"
    "register_endness self' = register_endness self"
    "ret_instruction self' = ret_instruction self"
    "nop_instruction self' = nop_instruction self"
    "vex_archinfo self' = vex_archinfo self"
    "register_size_names self' = register_size_names self"
  using arg_cong [OF init_unicorn_Inr [OF assms], of cls]
    arg_cong [OF init_unicorn_Inr [OF assms], of memory_endness]
    arg_cong [OF init_unicorn_Inr [OF assms], of register_endness]
    arg_cong [OF init_unicorn_Inr [OF assms], of ret_instruction]
    arg_cong [OF init_unicorn_Inr [OF assms], of nop_instruction]
    arg_cong [OF init_unicorn_Inr [OF assms], of vex_archinfo]
    arg_cong [OF init_unicorn_Inr [OF assms], of register_size_names]
  by simp_all

lemma Arch_init_Inr:
  assumes "Arch_init ev c e h = (Inr a, h')"
  shows "e \<in> {Endness_LE, Endness_BE, Endness_ME}"
    and "cls a = c"
    and "memory_endness a = (if e = Endness_BE then Endness_BE else c_memory_endness c)"
    and "register_endness a = (if e = Endness_BE then Endness_BE else c_register_endness c)"
    and "e = Endness_BE \<Longrightarrow> reverse_ends (c_ret_instruction c) = Inr (ret_instruction a)"
    and "e = Endness_BE \<Longrightarrow> reverse_ends (c_nop_instruction c) = Inr (nop_instruction a)"
    and "e \<noteq> Endness_BE \<Longrightarrow> ret_instruction a = c_ret_instruction c"
    and "e \<noteq> Endness_BE \<Longrightarrow> nop_instruction a = c_nop_instruction c"
    and "register_size_names a = size_names_loop (new_instance c) (c_registers c) []"
    and "\<exists>ys. h' = h @ ys"
    and "pyvex ev = None \<Longrightarrow> vex_archinfo a = None"
    and "pyvex ev = Some pv \<Longrightarrow>
           \<exists>p. vex_archinfo a = Some p \<and> length h \<le> p \<and> p < length h'
             \<and> (h' ! p = [] \<longleftrightarrow> default_vex_archinfo pv = [])"
proof -
  show valid: "e \<in> {Endness_LE, Endness_BE, Endness_ME}"
    using assms by (auto simp: Arch_init_def split: if_splits)
  obtain s1 h1 where s1: "init_vex ev (new_instance c) h = (s1, h1)" by force
  note v = init_vex_props [OF s1]
  note f1 = init_vex_fields [OF s1]
  obtain s2 where s2: "(if e = Endness_BE then init_big ev s1 h1 else (Inr s1, h1)) = (Inr s2, h')"
    and s4: "init_unicorn ev e
        (s2\<lparr>register_size_names := size_names_loop s2 (registers s2) []\<rparr>) = Inr a"
    using assms valid s1
    by (auto simp: Arch_init_def Let_def split: if_splits sum.splits prod.splits)
  note f4 = init_unicorn_fields [OF s4]
  have big: "e = Endness_BE \<Longrightarrow> init_big ev s1 h1 = (Inr s2, h')"
    and small: "e \<noteq> Endness_BE \<Longrightarrow> s2 = s1 \<and> h' = h1"
    using s2 by (simp_all split: if_splits)
  have c2: "cls s2 = c"
    using big small init_big_fields(1) [of ev s1 h1 s2 h'] f1(1)
    by (cases "e = Endness_BE") (simp_all add: new_instance_def)
  show "cls a = c" using f4(1) c2 by simp
  show "memory_endness a = (if e = Endness_BE then Endness_BE else c_memory_endness c)"
    using big small init_big_fields(2) [of ev s1 h1 s2 h'] f1(2) f4(2)
    by (cases "e = Endness_BE") (simp_all add: new_instance_def)
  show "register_endness a = (if e = Endness_BE then Endness_BE else c_register_endness c)"
    using big small init_big_fields(3) [of ev s1 h1 s2 h'] f1(3) f4(3)
    by (cases "e = Endness_BE") (simp_all add: new_instance_def)
  have r1: "ret_instruction s1 = c_ret_instruction c"
    and n1: "nop_instruction s1 = c_nop_instruction c"
    using f1(4,5) by (simp_all add: new_instance_def)
  have ra: "ret_instruction a = ret_instruction s2" and na: "nop_instruction a = nop_instruction s2"
    using f4(4,5) by simp_all
  show "e = Endness_BE \<Longrightarrow> reverse_ends (c_ret_instruction c) = Inr (ret_instruction a)"
    using big init_big_Inr(2) [of ev s1 h1 s2 h'] r1 ra by simp
  show "e = Endness_BE \<Longrightarrow> reverse_ends (c_nop_instruction c) = Inr (nop_instruction a)"
    using big init_big_Inr(3) [of ev s1 h1 s2 h'] n1 na by simp
  show "e \<noteq> Endness_BE \<Longrightarrow> ret_instruction a = c_ret_instruction c"
    using small r1 ra by simp
  show "e \<noteq> Endness_BE \<Longrightarrow> nop_instruction a = c_nop_instruction c"
    using small n1 na by simp
  have "register_size_names a = size_names_loop s2 (registers s2) []"
    using f4(7) by simp
  also have "\<dots> = size_names_loop (new_instance c) (c_registers c) []"
    using size_names_loop_cls [of s2 "new_instance c"] c2
    by (simp add: registers_def new_instance_def)
  finally show "register_size_names a = size_names_loop (new_instance c) (c_registers c) []" .
  have va: "vex_archinfo a = vex_archinfo s1"
    using big small init_big_fields(5) [of ev s1 h1 s2 h'] f4(6)
    by (cases "e = Endness_BE") simp_all
  from v(1) obtain ys where ys: "h1 = h @ ys" by blast
  show ext: "\<exists>ys. h' = h @ ys"
  proof (cases "e = Endness_BE")
    case False
    with small ys show ?thesis by simp
  next
    case True
    with big have f: "flip_vex ev s1 h1 = Inr h'" by (simp add: init_big_Inr(1))
    show ?thesis
    proof (cases "pyvex ev")
      case None
      with v(3) have "vex_archinfo s1 = None" by (simp add: new_instance_def)
      with flip_vex_props(2) [OF f] ys show ?thesis by simp
    next
      case (Some pv)
      from v(4) [OF Some] obtain p where p: "vex_archinfo s1 = Some p" "length h \<le> p" by blast
      from flip_vex_props(4) [OF f p(1) ys p(2)] show ?thesis .
    qed
  qed
  show "pyvex ev = None \<Longrightarrow> vex_archinfo a = None"
    using v(3) va by (simp add: new_instance_def)
  show "pyvex ev = Some pv \<Longrightarrow>
           \<exists>p. vex_archinfo a = Some p \<and> length h \<le> p \<and> p < length h'
             \<and> (h' ! p = [] \<longleftrightarrow> default_vex_archinfo pv = [])"
  proof -
    assume pv: "pyvex ev = Some pv"
    from v(4) [OF pv] obtain p where p: "vex_archinfo s1 = Some p" "length h \<le> p"
      "p < length h1" "h1 ! p = [] \<longleftrightarrow> default_vex_archinfo pv = []" by blast
    show ?thesis
    proof (cases "e = Endness_BE")
      case False
      with small p va show ?thesis by auto
    next
      case True
      with big have f: "flip_vex ev s1 h1 = Inr h'" by (simp add: init_big_Inr(1))
      from flip_vex_props(1) [OF f] flip_vex_props(3) [OF f p(1) p(3)] p va
      show ?thesis by auto
    qed
  qed
qed

lemma init_unicorn_isl:
  "cls s = cls s' \<Longrightarrow> uc_mode s = uc_mode s' \<Longrightarrow> (e = Endness_BE \<longleftrightarrow> e' = Endness_BE)
     \<Longrightarrow> isl (init_unicorn ev e s) = isl (init_unicorn ev e' s')"
  by (auto simp: init_unicorn_def register_names_def split: option.splits sum.splits)

lemma Arch_init_Inr_unicorn:
  assumes "Arch_init ev c e h = (Inr a, h')"
  shows "\<not> isl (init_unicorn ev e (new_instance c))"
proof -
  have valid: "e \<in> {Endness_LE, Endness_BE, Endness_ME}"
    using assms by (rule Arch_init_Inr(1))
  obtain s1 h1 where s1: "init_vex ev (new_instance c) h = (s1, h1)" by force
  note f1 = init_vex_fields [OF s1]
  obtain s2 where s2: "(if e = Endness_BE then init_big ev s1 h1 else (Inr s1, h1)) = (Inr s2, h')"
    and s4: "init_unicorn ev e
        (s2\<lparr>register_size_names := size_names_loop s2 (registers s2) []\<rparr>) = Inr a"
    using assms valid s1
    by (auto simp: Arch_init_def Let_def split: if_splits sum.splits prod.splits)
  have big: "e = Endness_BE \<Longrightarrow> init_big ev s1 h1 = (Inr s2, h')"
    and small: "e \<noteq> Endness_BE \<Longrightarrow> s2 = s1 \<and> h' = h1"
    using s2 by (simp_all split: if_splits)
  define s3 where "s3 = s2\<lparr>register_size_names := size_names_loop s2 (registers s2) []\<rparr>"
  have c3: "cls s3 = cls (new_instance c)"
    using big small init_big_fields(1) [of ev s1 h1 s2 h'] f1(1)
    by (cases "e = Endness_BE") (simp_all add: s3_def)
  have u3: "uc_mode s3 = uc_mode (new_instance c)"
    using big small init_big_fields(4) [of ev s1 h1 s2 h'] f1(6)
    by (cases "e = Endness_BE") (simp_all add: s3_def)
  from s4 have "\<not> isl (init_unicorn ev e s3)" by (simp add: s3_def)
  with init_unicorn_isl [OF c3 u3, of e e ev] show ?thesis by simp
qed

lemma Arch_init_total_gen:
  assumes "e \<in> {Endness_LE, Endness_BE, Endness_ME}"
    and "e = Endness_BE \<longrightarrow>
           \<not> isl (reverse_ends (c_ret_instruction c)) \<and> \<not> isl (reverse_ends (c_nop_instruction c))"
    and "\<not> isl (init_unicorn ev e (new_instance c))"
  shows "\<exists>a h'. Arch_init ev c e h = (Inr a, h')"
proof -
  obtain s1 h1 where s1: "init_vex ev (new_instance c) h = (s1, h1)" by force
  note v = init_vex_props [OF s1]
  note f1 = init_vex_fields [OF s1]
  have "\<exists>s2 h2. (if e = Endness_BE then init_big ev s1 h1 else (Inr s1, h1)) = (Inr s2, h2)"
  proof (cases "e = Endness_BE")
    case False
    then show ?thesis by simp
  next
    case True
    have "vex_archinfo s1 = None \<or> pyvex ev \<noteq> None"
      using v(3) by (cases "pyvex ev") (simp_all add: new_instance_def)
    from flip_vex_total [OF this] obtain h2 where f: "flip_vex ev s1 h1 = Inr h2" by blast
    have r1: "ret_instruction s1 = c_ret_instruction c"
      and n1: "nop_instruction s1 = c_nop_instruction c"
      using f1(4,5) by (simp_all add: new_instance_def)
    from True assms(2) obtain r n where "reverse_ends (ret_instruction s1) = Inr r"
      and "reverse_ends (nop_instruction s1) = Inr n"
      unfolding r1 n1
      by (cases "reverse_ends (c_ret_instruction c)"; cases "reverse_ends (c_nop_instruction c)")
         auto
    from init_big_total [OF f this] True show ?thesis by auto
  qed
  then obtain s2 h2 where
    s2: "(if e = Endness_BE then init_big ev s1 h1 else (Inr s1, h1)) = (Inr s2, h2)" by blast
  have big: "e = Endness_BE \<Longrightarrow> init_big ev s1 h1 = (Inr s2, h2)"
    and small: "e \<noteq> Endness_BE \<Longrightarrow> s2 = s1 \<and> h2 = h1"
    using s2 by (simp_all split: if_splits)
  define s3 where "s3 = s2\<lparr>register_size_names := size_names_loop s2 (registers s2) []\<rparr>"
  have c3: "cls s3 = cls (new_instance c)"
    using big small init_big_fields(1) [of ev s1 h1 s2 h2] f1(1)
    by (cases "e = Endness_BE") (simp_all add: s3_def)
  have u3: "uc_mode s3 = uc_mode (new_instance c)"
    using big small init_big_fields(4) [of ev s1 h1 s2 h2] f1(6)
    by (cases "e = Endness_BE") (simp_all add: s3_def)
  from init_unicorn_isl [OF c3 u3, of e e ev] assms(3)
  obtain s4 where s4: "init_unicorn ev e s3 = Inr s4"
    by (cases "init_unicorn ev e s3") auto
  show ?thesis
    using assms(1) s1 s2 s4 unfolding Arch_init_def s3_def
    by (auto simp: Let_def split: if_splits)
qed

lemma Arch_init_total:
  assumes "e \<in> {Endness_LE, Endness_BE, Endness_ME}"
    and "e = Endness_BE \<longrightarrow>
           length (c_ret_instruction c) mod 4 = 0 \<and> length (c_nop_instruction c) mod 4 = 0"
    and "c_uc_mode c = None \<or> (unicorn ev \<noteq> None \<and> c_uc_prefix c \<noteq> None)"
  shows "\<exists>a h'. Arch_init ev c e h = (Inr a, h')"
proof (rule Arch_init_total_gen [OF assms(1)])
  show "e = Endness_BE \<longrightarrow>
      \<not> isl (reverse_ends (c_ret_instruction c)) \<and> \<not> isl (reverse_ends (c_nop_instruction c))"
    using assms(2) by (auto simp: reverse_ends_groups)
  have "\<exists>s'. init_unicorn ev e (new_instance c) = Inr s'"
    using assms(3) by (intro init_unicorn_total) (simp_all add: new_instance_def)
  then show "\<not> isl (init_unicorn ev e (new_instance c))" by auto
qed

lemma Arch_init_again:
  assumes "Arch_init ev c e h = (Inr a, h')"
    and "e' = e \<or> (e \<noteq> Endness_BE \<and> e' \<in> {Endness_LE, Endness_ME})"
  shows "\<exists>a2 h2'. Arch_init ev c e' h2 = (Inr a2, h2')"
proof (rule Arch_init_total_gen)
  show "e' \<in> {Endness_LE, Endness_BE, Endness_ME}"
    using Arch_init_Inr(1) [OF assms(1)] assms(2) by auto
  show "e' = Endness_BE \<longrightarrow>
      \<not> isl (reverse_ends (c_ret_instruction c)) \<and> \<not> isl (reverse_ends (c_nop_instruction c))"
    using Arch_init_Inr(5,6) [OF assms(1)] assms(2) by auto
  have "e = Endness_BE \<longleftrightarrow> e' = Endness_BE" using assms(2) by auto
  from init_unicorn_isl [OF refl refl this, of ev "new_instance c"]
    Arch_init_Inr_unicorn [OF assms(1)]
  show "\<not> isl (init_unicorn ev e' (new_instance c))" by simp
qed

subsection \<open>Endianness of a new descriptor\<close>

text \<open>
  C8. For a variant whose declared return and no-op instructions have lengths that are
  multiples of four: whenever the big-endian and the little-endian construction return
  descriptors, the little-endian one has the two byte strings as declared and the
  big-endian one has them reversed in groups of four bytes; and both constructions do
  return a descriptor, provided the emulator selectors can be processed (no emulator mode
  declared, or the emulator installed and a constant prefix declared).
\<close>

theorem big_endian_reverses_instructions:
  assumes "length (c_ret_instruction c) mod 4 = 0"
    and "length (c_nop_instruction c) mod 4 = 0"
  shows "(\<forall>b hb l hl.
            Arch_init ev c Endness_BE h = (Inr b, hb)
            \<and> Arch_init ev c Endness_LE h = (Inr l, hl) \<longrightarrow>
              ret_instruction l = c_ret_instruction c
              \<and> nop_instruction l = c_nop_instruction c
              \<and> ret_instruction b = rev_groups4 (ret_instruction l)
              \<and> nop_instruction b = rev_groups4 (nop_instruction l))
         \<and> (c_uc_mode c = None \<or> (unicorn ev \<noteq> None \<and> c_uc_prefix c \<noteq> None) \<longrightarrow>
              (\<exists>b hb l hl. Arch_init ev c Endness_BE h = (Inr b, hb)
                 \<and> Arch_init ev c Endness_LE h = (Inr l, hl)))"
proof (intro conjI allI impI)
  fix b hb l hl
  assume "Arch_init ev c Endness_BE h = (Inr b, hb) \<and> Arch_init ev c Endness_LE h = (Inr l, hl)"
  then have b: "Arch_init ev c Endness_BE h = (Inr b, hb)"
    and l: "Arch_init ev c Endness_LE h = (Inr l, hl)" by simp_all
  show rl: "ret_instruction l = c_ret_instruction c"
    using Arch_init_Inr(7) [OF l] by simp
  show nl: "nop_instruction l = c_nop_instruction c"
    using Arch_init_Inr(8) [OF l] by simp
  show "ret_instruction b = rev_groups4 (ret_instruction l)"
    using Arch_init_Inr(5) [OF b] reverse_ends_groups [OF assms(1)] rl by simp
  show "nop_instruction b = rev_groups4 (nop_instruction l)"
    using Arch_init_Inr(6) [OF b] reverse_ends_groups [OF assms(2)] nl by simp
next
  assume uc: "c_uc_mode c = None \<or> (unicorn ev \<noteq> None \<and> c_uc_prefix c \<noteq> None)"
  have "\<exists>b hb. Arch_init ev c Endness_BE h = (Inr b, hb)"
    using assms uc by (intro Arch_init_total) simp_all
  moreover have "\<exists>l hl. Arch_init ev c Endness_LE h = (Inr l, hl)"
    using uc by (intro Arch_init_total) simp_all
  ultimately show "\<exists>b hb l hl. Arch_init ev c Endness_BE h = (Inr b, hb)
      \<and> Arch_init ev c Endness_LE h = (Inr l, hl)" by blast
qed

theorem big_endian_reverses_instructions_witness:
  "length (c_ret_instruction ArchExample) mod 4 = 0
   \<and> length (c_nop_instruction ArchExample) mod 4 = 0
   \<and> c_uc_mode ArchExample = None
   \<and> \<not> isl (fst (Arch_init no_backends ArchExample Endness_BE []))
   \<and> \<not> isl (fst (Arch_init no_backends ArchExample Endness_LE []))
   \<and> ret_instruction (projr (fst (Arch_init no_backends ArchExample Endness_LE [])))
       = [0x0E, 0xF0, 0xA0, 0xE1]
   \<and> ret_instruction (projr (fst (Arch_init no_backends ArchExample Endness_BE [])))
       = [0xE1, 0xA0, 0xF0, 0x0E]"
proof -
  have r: "length (c_ret_instruction ArchExample) mod 4 = 0"
    and n: "length (c_nop_instruction ArchExample) mod 4 = 0"
    and u: "c_uc_mode ArchExample = None"
    and rv: "c_ret_instruction ArchExample = [0x0E, 0xF0, 0xA0, 0xE1]"
    by (simp_all add: ArchExample_def Arch_def)
  note t = big_endian_reverses_instructions [OF r n, of no_backends "[]"]
  from t u obtain b hb l hl
    where b: "Arch_init no_backends ArchExample Endness_BE [] = (Inr b, hb)"
      and l: "Arch_init no_backends ArchExample Endness_LE [] = (Inr l, hl)" by blast
  from t b l have "ret_instruction l = c_ret_instruction ArchExample"
    and "ret_instruction b = rev_groups4 (ret_instruction l)" by blast+
  with r n u rv b l show ?thesis by simp
qed

text \<open>
  C1, as the code has it. The constructor accepts little, big and middle. Big sets both
  endianness fields to big; little and middle leave them as the variant declares them.
  So, for a variant that declares little (as \<^verbatim>\<open>Arch\<close> does), constructing with little or
  big returns a descriptor whose two fields read back the requested value, and
  constructing with middle returns a descriptor as well. Construction with big needs
  instruction lengths that are multiples of four (\<^verbatim>\<open>reverse_ends\<close> raises otherwise), and
  the emulator selectors must be processable as in C8.
\<close>

theorem endianness_read_back:
  assumes "e \<in> {Endness_LE, Endness_BE, Endness_ME}"
    and "c_memory_endness c = Endness_LE" and "c_register_endness c = Endness_LE"
    and "e = Endness_BE \<longrightarrow>
           length (c_ret_instruction c) mod 4 = 0 \<and> length (c_nop_instruction c) mod 4 = 0"
    and "c_uc_mode c = None \<or> (unicorn ev \<noteq> None \<and> c_uc_prefix c \<noteq> None)"
  shows "\<exists>a h'. Arch_init ev c e h = (Inr a, h')
           \<and> (e \<noteq> Endness_ME \<longrightarrow> memory_endness a = e \<and> register_endness a = e)"
proof -
  from Arch_init_total [OF assms(1,4,5)] obtain a h'
    where a: "Arch_init ev c e h = (Inr a, h')" by blast
  have "e \<noteq> Endness_ME \<longrightarrow> memory_endness a = e \<and> register_endness a = e"
    using Arch_init_Inr(3,4) [OF a] assms(1,2,3) by auto
  with a show ?thesis by blast
qed

theorem endianness_read_back_witness:
  "\<not> isl (fst (Arch_init no_backends ArchExample Endness_BE []))
   \<and> memory_endness (projr (fst (Arch_init no_backends ArchExample Endness_BE []))) = Endness_BE
   \<and> register_endness (projr (fst (Arch_init no_backends ArchExample Endness_BE []))) = Endness_BE
   \<and> \<not> isl (fst (Arch_init no_backends ArchExample Endness_LE []))
   \<and> memory_endness (projr (fst (Arch_init no_backends ArchExample Endness_LE []))) = Endness_LE
   \<and> \<not> isl (fst (Arch_init no_backends ArchExample Endness_ME []))"
proof -
  have c: "c_memory_endness ArchExample = Endness_LE" "c_register_endness ArchExample = Endness_LE"
    and r: "length (c_ret_instruction ArchExample) mod 4 = 0
         \<and> length (c_nop_instruction ArchExample) mod 4 = 0"
    and u: "c_uc_mode ArchExample = None \<or>
         (unicorn no_backends \<noteq> None \<and> c_uc_prefix ArchExample \<noteq> None)"
    by (simp_all add: ArchExample_def Arch_def)
  from endianness_read_back [of Endness_BE ArchExample no_backends "[]"] c r u
  have 1: "\<exists>a h'. Arch_init no_backends ArchExample Endness_BE [] = (Inr a, h')
      \<and> memory_endness a = Endness_BE \<and> register_endness a = Endness_BE" by simp
  from endianness_read_back [of Endness_LE ArchExample no_backends "[]"] c r u
  have 2: "\<exists>a h'. Arch_init no_backends ArchExample Endness_LE [] = (Inr a, h')
      \<and> memory_endness a = Endness_LE \<and> register_endness a = Endness_LE" by simp
  from endianness_read_back [of Endness_ME ArchExample no_backends "[]"] c r u
  have 3: "\<exists>a h'. Arch_init no_backends ArchExample Endness_ME [] = (Inr a, h')" by simp
  from 1 2 3 show ?thesis by auto
qed

lemma little_keeps_declared_endness:
  "Arch_init ev c Endness_LE h = (Inr a, h') \<Longrightarrow>
     memory_endness a = c_memory_endness c \<and> register_endness a = c_register_endness c"
  using Arch_init_Inr(3,4) [of ev c Endness_LE h a h'] by simp

text \<open>
  The claim as the specification states it fails for middle: \<^verbatim>\<open>Arch\<close> constructed with
  middle reads back little in both fields.
\<close>

theorem middle_reads_back_little:
  "\<not> isl (fst (Arch_init no_backends Arch Endness_ME []))
   \<and> memory_endness (projr (fst (Arch_init no_backends Arch Endness_ME []))) = Endness_LE
   \<and> register_endness (projr (fst (Arch_init no_backends Arch Endness_ME []))) = Endness_LE
   \<and> Endness_LE \<noteq> Endness_ME"
proof -
  have "\<exists>a h'. Arch_init no_backends Arch Endness_ME [] = (Inr a, h')"
    by (intro Arch_init_total) (simp_all add: Arch_def)
  then obtain a h' where a: "Arch_init no_backends Arch Endness_ME [] = (Inr a, h')" by blast
  from Arch_init_Inr(3,4) [OF a]
  have "memory_endness a = Endness_LE" "register_endness a = Endness_LE"
    by (simp_all add: Arch_def)
  with a show ?thesis by simp
qed

subsection \<open>The reverse register table\<close>

lemma size_names_loop_slot:
  "map_of (size_names_loop self rs m) v =
     foldl (\<lambda>cur k. if cur \<noteq> None \<and> map_of (register_names self) (PStr k) = None
                      then cur else Some k)
       (map_of m v)
       [k \<leftarrow> map fst [kv \<leftarrow> rs. snd kv = v].
          \<not> (name self \<in> {Some ''X86'', Some ''AMD64''} \<and> k \<in> {''bp'', ''sp'', ''ip''})]"
proof (induction rs arbitrary: m)
  case Nil
  show ?case by simp
next
  case (Cons kv rs)
  obtain k v0 where kv: "kv = (k, v0)" by (cases kv)
  show ?case
  proof (cases "v0 = v")
    case True
    show ?thesis unfolding kv using True Cons [of m] Cons [of "AList.update v k m"]
      by (simp add: update_conv')
  next
    case False
    show ?thesis unfolding kv using False Cons [of m] Cons [of "AList.update v0 k m"]
      by (simp add: update_conv')
  qed
qed

lemma slot_fold_Some:
  assumes "\<And>cur k. step cur k = (if cur \<noteq> None \<and> \<not> disp k then cur else Some k)"
  shows "foldl step (Some k0) ks = Some (last (k0 # filter disp ks))"
  by (induction ks arbitrary: k0) (simp_all add: assms)

lemma slot_fold_None:
  assumes "\<And>cur k. step cur k = (if cur \<noteq> None \<and> \<not> disp k then cur else Some k)"
  shows "foldl step None ks =
     (case ks of [] \<Rightarrow> None | k1 # rest \<Rightarrow> Some (last (k1 # filter disp rest)))"
proof (cases ks)
  case Nil
  then show ?thesis by simp
next
  case (Cons k1 rest)
  have "foldl step None (k1 # rest) = foldl step (Some k1) rest" by (simp add: assms)
  with Cons slot_fold_Some [of step disp k1 rest, OF assms] show ?thesis by simp
qed

lemma size_names_loop_winner:
  "map_of (size_names_loop self rs []) v =
     (case [k \<leftarrow> map fst [kv \<leftarrow> rs. snd kv = v].
              \<not> (name self \<in> {Some ''X86'', Some ''AMD64''} \<and> k \<in> {''bp'', ''sp'', ''ip''})] of
        [] \<Rightarrow> None
      | k1 # rest \<Rightarrow>
          Some (last (k1 # [k \<leftarrow> rest. map_of (register_names self) (PStr k) \<noteq> None])))"
proof -
  have "map_of ([] :: ((int \<times> int) \<times> string) list) v = None" by simp
  then show ?thesis
    unfolding size_names_loop_slot [of self rs "[]" v]
    by (simp only:) (rule slot_fold_None, simp)
qed

lemma reverse_table_facts:
  assumes "Arch_init ev c e h = (Inr a, h')"
  shows "map_of (register_size_names a) v =
      (case [k \<leftarrow> map fst [kv \<leftarrow> c_registers c. snd kv = v].
               \<not> (c_name c \<in> {Some ''X86'', Some ''AMD64''} \<and> k \<in> {''bp'', ''sp'', ''ip''})] of
         [] \<Rightarrow> None
       | k1 # rest \<Rightarrow>
           Some (last (k1 # [k \<leftarrow> rest. map_of (c_register_names c) (PStr k) \<noteq> None])))"
    and "(\<forall>k. map_of (c_register_names c) (PStr k) = None) \<longrightarrow>
      map_of (register_size_names a) v =
      (case [k \<leftarrow> map fst [kv \<leftarrow> c_registers c. snd kv = v].
               \<not> (c_name c \<in> {Some ''X86'', Some ''AMD64''} \<and> k \<in> {''bp'', ''sp'', ''ip''})] of
         [] \<Rightarrow> None
       | k1 # rest \<Rightarrow> Some k1)"
    and "c_name c \<in> {Some ''X86'', Some ''AMD64''} \<longrightarrow>
      map_of (register_size_names a) v \<notin> {Some ''bp'', Some ''sp'', Some ''ip''}"
proof -
  let ?ks = "[k \<leftarrow> map fst [kv \<leftarrow> c_registers c. snd kv = v].
               \<not> (c_name c \<in> {Some ''X86'', Some ''AMD64''} \<and> k \<in> {''bp'', ''sp'', ''ip''})]"
  let ?disp = "\<lambda>k. map_of (c_register_names c) (PStr k) \<noteq> None"
  have n: "name (new_instance c) = c_name c"
    "register_names (new_instance c) = c_register_names c"
    by (simp_all add: name_def register_names_def new_instance_def)
  show w: "map_of (register_size_names a) v =
      (case ?ks of [] \<Rightarrow> None | k1 # rest \<Rightarrow> Some (last (k1 # filter ?disp rest)))"
    unfolding Arch_init_Inr(9) [OF assms] size_names_loop_winner n ..
  show "(\<forall>k. map_of (c_register_names c) (PStr k) = None) \<longrightarrow>
      map_of (register_size_names a) v = (case ?ks of [] \<Rightarrow> None | k1 # rest \<Rightarrow> Some k1)"
    unfolding w by (simp split: list.splits)
  show "c_name c \<in> {Some ''X86'', Some ''AMD64''} \<longrightarrow>
      map_of (register_size_names a) v \<notin> {Some ''bp'', Some ''sp'', Some ''ip''}"
  proof
    assume x: "c_name c \<in> {Some ''X86'', Some ''AMD64''}"
    have ks: "\<forall>k \<in> set ?ks. k \<notin> {''bp'', ''sp'', ''ip''}" using x by auto
    show "map_of (register_size_names a) v \<notin> {Some ''bp'', Some ''sp'', Some ''ip''}"
    proof (cases ?ks)
      case Nil
      with w show ?thesis by simp
    next
      case (Cons k1 rest)
      have "last (k1 # filter ?disp rest) \<in> set (k1 # filter ?disp rest)"
        by (rule last_in_set) simp
      also have "\<dots> \<subseteq> set ?ks" unfolding Cons by auto
      finally have "last (k1 # filter ?disp rest) \<notin> {''bp'', ''sp'', ''ip''}"
        using ks by blast
      with w Cons show ?thesis by auto
    qed
  qed
qed

text \<open>
  C5, as the code has it. The reverse table is built at construction from the forward
  table, entry by entry in the table's order. The names \<^verbatim>\<open>bp\<close>, \<^verbatim>\<open>sp\<close> and \<^verbatim>\<open>ip\<close> of a
  variant named \<^verbatim>\<open>X86\<close> or \<^verbatim>\<open>AMD64\<close> are passed over. Of the remaining names of a pair
  (offset, size), the first claims the slot, and a later one replaces the holder exactly
  when it is a key of the display map; otherwise it is passed over. So the slot ends
  with the last name among the first one and the later ones that are keys of the display
  map; with a display map that has no register name as a key, the first name wins; and
  for \<^verbatim>\<open>X86\<close> and \<^verbatim>\<open>AMD64\<close> no slot holds \<^verbatim>\<open>bp\<close>, \<^verbatim>\<open>sp\<close> or \<^verbatim>\<open>ip\<close>.
\<close>

theorem reverse_table_winner:
  assumes "Arch_init ev c e h = (Inr a, h')"
  shows "map_of (register_size_names a) v =
      (case [k \<leftarrow> map fst [kv \<leftarrow> c_registers c. snd kv = v].
               \<not> (c_name c \<in> {Some ''X86'', Some ''AMD64''} \<and> k \<in> {''bp'', ''sp'', ''ip''})] of
         [] \<Rightarrow> None
       | k1 # rest \<Rightarrow>
           Some (last (k1 # [k \<leftarrow> rest. map_of (c_register_names c) (PStr k) \<noteq> None])))
    \<and> ((\<forall>k. map_of (c_register_names c) (PStr k) = None) \<longrightarrow>
      map_of (register_size_names a) v =
      (case [k \<leftarrow> map fst [kv \<leftarrow> c_registers c. snd kv = v].
               \<not> (c_name c \<in> {Some ''X86'', Some ''AMD64''} \<and> k \<in> {''bp'', ''sp'', ''ip''})] of
         [] \<Rightarrow> None
       | k1 # rest \<Rightarrow> Some k1))
    \<and> (c_name c \<in> {Some ''X86'', Some ''AMD64''} \<longrightarrow>
      map_of (register_size_names a) v \<notin> {Some ''bp'', Some ''sp'', Some ''ip''})"
  using reverse_table_facts [OF assms, of v] by (intro conjI)

theorem reverse_table_winner_witness:
  "\<not> isl (fst (Arch_init no_backends ArchX86 Endness_LE []))
   \<and> map_of (register_size_names (projr (fst (Arch_init no_backends ArchX86 Endness_LE []))))
        (24, 4) = Some ''esp''
   \<and> map_of (register_size_names (projr (fst (Arch_init no_backends ArchX86 Endness_LE []))))
        (8, 4) = Some ''eax''
   \<and> map_of (register_size_names (projr (fst (Arch_init no_backends ArchX86 Endness_LE []))))
        (8, 2) = Some ''ax''
   \<and> map_of (register_size_names (projr (fst (Arch_init no_backends ArchClash Endness_LE []))))
        (8, 4) = Some ''d''"
proof -
  have "\<exists>a h'. Arch_init no_backends ArchX86 Endness_LE [] = (Inr a, h')"
    by (intro Arch_init_total) (simp_all add: ArchX86_def Arch_def)
  then obtain a h' where a: "Arch_init no_backends ArchX86 Endness_LE [] = (Inr a, h')" by blast
  have "\<exists>a h'. Arch_init no_backends ArchClash Endness_LE [] = (Inr a, h')"
    by (intro Arch_init_total) (simp_all add: ArchClash_def Arch_def)
  then obtain b h2 where b: "Arch_init no_backends ArchClash Endness_LE [] = (Inr b, h2)" by blast
  have 1: "map_of (register_size_names a) (24, 4) = Some ''esp''"
    using reverse_table_winner [OF a, of "(24, 4)", THEN conjunct1]
    by (simp add: ArchX86_def Arch_def)
  have 2: "map_of (register_size_names a) (8, 4) = Some ''eax''"
    using reverse_table_winner [OF a, of "(8, 4)", THEN conjunct1]
    by (simp add: ArchX86_def Arch_def)
  have 3: "map_of (register_size_names a) (8, 2) = Some ''ax''"
    using reverse_table_winner [OF a, of "(8, 2)", THEN conjunct1]
    by (simp add: ArchX86_def Arch_def)
  have 4: "map_of (register_size_names b) (8, 4) = Some ''d''"
    using reverse_table_winner [OF b, of "(8, 4)", THEN conjunct1]
    by (simp add: ArchClash_def Arch_def)
  from a b 1 2 3 4 show ?thesis by simp
qed

text \<open>
  The claim as the specification states it fails where it says that a colliding name
  that is a key of the display map is skipped: in \<open>ArchClash\<close> the name \<^verbatim>\<open>b\<close> collides
  with \<^verbatim>\<open>a\<close> on (0, 4) and is a key of the display map, and the slot ends with \<^verbatim>\<open>b\<close>,
  not with the first winner \<^verbatim>\<open>a\<close>.
\<close>

theorem display_key_replaces_first_winner:
  "\<not> isl (fst (Arch_init no_backends ArchClash Endness_LE []))
   \<and> map_of (register_size_names (projr (fst (Arch_init no_backends ArchClash Endness_LE []))))
        (0, 4) = Some ''b''
   \<and> map_of (c_register_names ArchClash) (PStr ''b'') \<noteq> None
   \<and> map fst [kv \<leftarrow> c_registers ArchClash. snd kv = (0, 4)] = [''a'', ''b'', ''c'']"
proof -
  have "\<exists>a h'. Arch_init no_backends ArchClash Endness_LE [] = (Inr a, h')"
    by (intro Arch_init_total) (simp_all add: ArchClash_def Arch_def)
  then obtain b h2 where b: "Arch_init no_backends ArchClash Endness_LE [] = (Inr b, h2)" by blast
  have n: "name (new_instance ArchClash) = Some ''CLASH''"
    "register_names (new_instance ArchClash)
       = [(PInt 0, ''a''), (PStr ''b'', ''b''), (PInt 8, ''d'')]"
    "c_registers ArchClash
       = [(''a'', (0, 4)), (''b'', (0, 4)), (''c'', (0, 4)), (''d'', (8, 4))]"
    by (simp_all add: name_def register_names_def new_instance_def ArchClash_def Arch_def)
  have 1: "map_of (register_size_names b) (0, 4) = Some ''b''"
    unfolding Arch_init_Inr(9) [OF b] n(3) by (simp add: n(1,2))
  from b 1 show ?thesis by (simp add: ArchClash_def Arch_def)
qed

subsection \<open>Registration and identification\<close>








text \<open>
  C2. \<^verbatim>\<open>register_arch\<close> appends the entry to \<^verbatim>\<open>arch_id_map\<close> before it constructs the
  instances, so a construction that raises leaves the entry behind. With an endianness
  string that is none of the accepted ones, the check of \<^verbatim>\<open>endness\<close> does not raise (it
  only looks at values that are not strings), the entry is appended, the constructor
  raises \<^verbatim>\<open>ArchError\<close>, and the registry keeps the entry although \<^verbatim>\<open>all_arches\<close> has no
  instance for it. The same happens with big endianness and a class whose return
  instruction is one byte long, where the constructor raises \<^verbatim>\<open>struct.error\<close>.
\<close>

theorem register_arch_keeps_entry_on_failure:
  "register_arch no_backends (PList [PStr ''^foo'']) (PInt 32) (PStr ''Iend_XX'') ArchExample
     empty_world
   = (Inl ArchError,
      \<lparr> heap = [], arch_id_map = [([''^foo''], 32, ''Iend_XX'', ArchExample)],
        all_arches = [] \<rparr>)
   \<and> register_arch no_backends (PList [PStr ''^short'']) (PInt 32) (PStr Endness_BE) ArchShort
     empty_world
   = (Inl StructError,
      \<lparr> heap = [], arch_id_map = [([''^short''], 32, Endness_BE, ArchShort)],
        all_arches = [] \<rparr>)"
proof -
  have 1: "Arch_init no_backends ArchExample ''Iend_XX'' [] = (Inl ArchError, [])"
    by (simp add: Arch_init_def Endness_defs)
  have 2: "Arch_init no_backends ArchShort Endness_BE [] = (Inl StructError, [])"
    by (simp add: Arch_init_def init_vex_def init_big_def flip_vex_def flip_cs_mode_def
        no_backends_def new_instance_def ArchShort_def Arch_def Let_def reverse_ends_error)
  from 1 2 show ?thesis
    by (simp add: register_arch_def do_register_def Let_def append_instance_def construct_def
        empty_world_def no_backends_def)
qed

subsection \<open>Copies\<close>

lemma Arch_eq_same_class:
  "cls a = cls b \<Longrightarrow> memory_endness a = memory_endness b \<Longrightarrow> Arch_eq a (ArchObject b)"
  by (simp add: Arch_eq_def name_def bits_def)

text \<open>
  C3, as the code has it. Let a descriptor be constructed with the lifting backend
  present, with big endianness or from a variant that declares little or middle, and let
  the store have grown since. Then \<^verbatim>\<open>copy\<close> returns a descriptor of the same class that
  is equal to the original, and whose blob is a new dictionary object with the items of
  the original's blob: copying leaves the original's blob as it was, and assigning to any
  key of the copy's blob leaves the original's blob unchanged.
\<close>

theorem copy_equal_with_own_blob:
  assumes "pyvex ev = Some pv"
    and "Arch_init ev c e h0 = (Inr a, h1)"
    and "length h1 \<le> length h"
    and "e = Endness_BE \<or> c_memory_endness c \<in> {Endness_LE, Endness_ME}"
  shows "\<exists>b h' p q. copy ev a h = (Inr b, h')
           \<and> Arch_eq a (ArchObject b) \<and> cls b = cls a
           \<and> vex_archinfo a = Some p \<and> vex_archinfo b = Some q
           \<and> p < length h' \<and> q < length h' \<and> p \<noteq> q
           \<and> h' ! q = h ! p \<and> h' ! p = h ! p
           \<and> (\<forall>k v. dict_setitem h' q k v ! p = h' ! p)"
proof -
  note ai = Arch_init_Inr [OF assms(2)]
  have ca: "cls a = c" by (rule ai(2))
  have ma: "memory_endness a = (if e = Endness_BE then Endness_BE else c_memory_endness c)"
    by (rule ai(3))
  from ai(12) [OF assms(1)] obtain p where p: "vex_archinfo a = Some p" "p < length h1"
    by blast
  have ph: "p < length h" using p(2) assms(3) by simp
  have "memory_endness a = e \<or> (e \<noteq> Endness_BE \<and> memory_endness a \<in> {Endness_LE, Endness_ME})"
    using ma assms(4) by auto
  from Arch_init_again [OF assms(2) this, of h] obtain b0 hb
    where b0: "Arch_init ev c (memory_endness a) h = (Inr b0, hb)" by blast
  note bi = Arch_init_Inr [OF b0]
  from bi(10) obtain ys where hb: "hb = h @ ys" by blast
  define b where "b = b0\<lparr>vex_archinfo := Some (length hb)\<rparr>"
  define h' where "h' = hb @ [hb ! p]"
  have cp: "copy ev a h = (Inr b, h')"
    using b0 p(1) by (simp add: copy_def construct_def ca dict_copy_def b_def h'_def)
  have cb: "cls b = cls a" using bi(2) ca by (simp add: b_def)
  have mb: "memory_endness b = memory_endness a"
    using bi(3) ma by (auto simp: b_def)
  have eq: "Arch_eq a (ArchObject b)"
    using cb mb by (intro Arch_eq_same_class) simp_all
  have hbp: "hb ! p = h ! p" using hb ph by (simp add: nth_append)
  have 1: "p < length h'" using ph hb by (simp add: h'_def)
  have 2: "length hb < length h'" by (simp add: h'_def)
  have 3: "p \<noteq> length hb" using ph hb by simp
  have 4: "h' ! length hb = h ! p" using hbp by (simp add: h'_def)
  have 5: "h' ! p = h ! p" using hbp ph hb by (simp add: h'_def nth_append)
  have 6: "\<forall>k v. dict_setitem h' (length hb) k v ! p = h' ! p"
    using 3 by (simp add: dict_setitem_other)
  have "vex_archinfo b = Some (length hb)" by (simp add: b_def)
  with cp eq cb p(1) 1 2 3 4 5 6 show ?thesis by blast
qed

lemma example_original_value:
  "example_original =
     (Inr ((new_instance ArchExample)\<lparr>vex_archinfo := Some 1\<rparr>),
      [[(''num_levels'', PInt 0)],
       [(''hwcaps'', PInt 0), (''endness'', PInt 1537), (''hwcache_info'', PRef 0)]])"
  by (simp add: example_original_def Arch_init_def init_vex_def alloc_dict_def
      with_pyvex_def init_unicorn_def new_instance_def ArchExample_def Arch_def Let_def
      registers_def)

lemma example_copy_value:
  "example_copy =
     (Inr ((new_instance ArchExample)\<lparr>vex_archinfo := Some 4\<rparr>),
      [[(''num_levels'', PInt 0)],
       [(''hwcaps'', PInt 0), (''endness'', PInt 1537), (''hwcache_info'', PRef 0)],
       [(''num_levels'', PInt 0)],
       [(''hwcaps'', PInt 0), (''endness'', PInt 1537), (''hwcache_info'', PRef 2)],
       [(''hwcaps'', PInt 0), (''endness'', PInt 1537), (''hwcache_info'', PRef 0)]])"
  unfolding example_copy_def example_original_value
  by (simp add: copy_def construct_def dict_copy_def Arch_init_def init_vex_def alloc_dict_def
      with_pyvex_def init_unicorn_def new_instance_def ArchExample_def Arch_def Let_def
      registers_def)

theorem copy_equal_with_own_blob_witness:
  "pyvex with_pyvex \<noteq> None
   \<and> \<not> isl (fst example_original) \<and> \<not> isl (fst example_copy)
   \<and> Arch_eq (projr (fst example_original)) (ArchObject (projr (fst example_copy)))
   \<and> vex_archinfo (projr (fst example_original)) = Some 1
   \<and> vex_archinfo (projr (fst example_copy)) = Some 4
   \<and> snd example_copy ! 4 = snd example_original ! 1
   \<and> dict_setitem (snd example_copy) 4 ''hwcaps'' (PInt 7) ! 1 = snd example_original ! 1"
proof -
  obtain pv where pv: "pyvex with_pyvex = Some pv" by (simp add: with_pyvex_def)
  have a: "Arch_init with_pyvex ArchExample Endness_LE [] =
      (Inr (projr (fst example_original)), snd example_original)"
    unfolding example_original_def [symmetric] by (simp add: example_original_value)
  have d: "Endness_LE = Endness_BE \<or> c_memory_endness ArchExample \<in> {Endness_LE, Endness_ME}"
    by (simp add: ArchExample_def Arch_def)
  from copy_equal_with_own_blob [OF pv a order_refl d] obtain b h' p q
    where c: "copy with_pyvex (projr (fst example_original)) (snd example_original) = (Inr b, h')"
      and e: "Arch_eq (projr (fst example_original)) (ArchObject b)"
      and q: "vex_archinfo b = Some q"
      and s: "\<forall>k v. dict_setitem h' q k v ! p = h' ! p"
    by blast
  from c have b: "b = projr (fst example_copy)" and h': "h' = snd example_copy"
    by (simp_all add: example_copy_def)
  from e b have "Arch_eq (projr (fst example_original)) (ArchObject (projr (fst example_copy)))"
    by simp
  with pv show ?thesis
    by (simp add: example_copy_value example_original_value dict_setitem_def)
qed

text \<open>
  The claim as the specification states it fails for nested values: the copy's blob
  holds the same nested dictionary object as the original's. After
  \<^verbatim>\<open>copy.vex_archinfo['hwcache_info']['num_levels'] = 5\<close> the original's blob reads 5
  there, where it read 0 before.
\<close>

theorem copy_shares_nested_values:
  "nested_getitem (snd example_copy) (the (vex_archinfo (projr (fst example_original))))
      ''hwcache_info'' ''num_levels'' = Some (PInt 0)
   \<and> nested_getitem example_mutated (the (vex_archinfo (projr (fst example_original))))
      ''hwcache_info'' ''num_levels'' = Some (PInt 5)
   \<and> the (vex_archinfo (projr (fst example_copy)))
      \<noteq> the (vex_archinfo (projr (fst example_original)))"
  unfolding example_mutated_def
  by (simp add: example_copy_value example_original_value nested_getitem_def
      nested_setitem_def dict_getitem_def dict_setitem_def)

end
